theory Spec2Isabelle
  imports Main "HOL-Library.Sublist"
begin

section \<open>Configuration records (pkg/conf/conf.go, lines 14-97)\<close>

text \<open>
  The Go structs of the package, one record each, with the fields in the order of the
  source.  Go's \<^verbatim>\<open>int\<close> and \<^verbatim>\<open>uint\<close> are read as \<open>int\<close> and \<open>nat\<close>: the
  package never does arithmetic on them, it only compares them with the bounds of the
  validation tags.
\<close>

record database =
  Type :: string
  User :: string
  Password :: string
  Host :: string
  Name :: string
  TablePrefix :: string
  DBFile :: string
  Port :: int
  Charset :: string

record system =
  Mode :: string
  Listen :: string
  Debug :: bool
  SessionSecret :: string
  HashIDSalt :: string

record ssl =
  CertPath :: string
  KeyPath :: string
  Listen :: string

record unix =
  Listen :: string

record slave =
  Secret :: string
  CallbackTimeout :: int
  SignatureTTL :: int

record captcha =
  Height :: int
  Width :: int
  Mode :: int
  ComplexOfNoiseText :: int
  ComplexOfNoiseDot :: int
  IsShowHollowLine :: bool
  IsShowNoiseDot :: bool
  IsShowNoiseText :: bool
  IsShowSlimeLine :: bool
  IsShowSineLine :: bool
  CaptchaLen :: int

record redis =
  Network :: string
  Server :: string
  Password :: string
  DB :: string

record thumb =
  MaxWidth :: nat
  MaxHeight :: nat
  FileSuffix :: string

record cors =
  AllowOrigins :: "string list"
  AllowMethods :: "string list"
  AllowHeaders :: "string list"
  AllowCredentials :: bool
  ExposeHeaders :: "string list"

record rclone =
  Config :: string
  Binds :: "string list"

section \<open>Validation tags\<close>

text \<open>
  Modelled from the spec: the validator library (gopkg.in/go-playground/validator.v9)
  that \<^verbatim>\<open>mapSection\<close> calls is not among the sources.  Section 4.5 of the specification
  gives the constraint kinds: numeric range with inclusive bounds, enumerated string
  equality, conditional requirement, minimum length.  A tag is a comma-separated
  conjunction of groups; a group is a \<^verbatim>\<open>|\<close>-separated disjunction of checks.
  \<^verbatim>\<open>omitempty\<close> ends the validation of a field that holds the zero value of its type.
  Lengths of strings are counted in characters.
\<close>

datatype check =
    Required
  | Omitempty
  | Eq string
  | Gte int
  | Lte int
  | Gt int
  | Min int

type_synonym tag = "check list list"

datatype fval =
    VString string
  | VInt int
  | VUint nat
  | VBool bool
  | VStrings "string list"

fun hasValue :: "fval \<Rightarrow> bool" where
  "hasValue (VString s) = (s \<noteq> [])"
| "hasValue (VInt i) = (i \<noteq> 0)"
| "hasValue (VUint u) = (u \<noteq> 0)"
| "hasValue (VBool b) = b"
| "hasValue (VStrings l) = (l \<noteq> [])"

text \<open>The number a bound is compared with: the value of a number, the length of a
  string or of a list.  A boolean has none.\<close>

fun magnitude :: "fval \<Rightarrow> int option" where
  "magnitude (VString s) = Some (int (length s))"
| "magnitude (VInt i) = Some i"
| "magnitude (VUint u) = Some (int u)"
| "magnitude (VBool b) = None"
| "magnitude (VStrings l) = Some (int (length l))"

fun holds :: "check \<Rightarrow> fval \<Rightarrow> bool" where
  "holds Required v = hasValue v"
| "holds Omitempty v = True"
| "holds (Eq p) v = (v = VString p)"
| "holds (Gte n) v = (case magnitude v of Some m \<Rightarrow> n \<le> m | None \<Rightarrow> False)"
| "holds (Lte n) v = (case magnitude v of Some m \<Rightarrow> m \<le> n | None \<Rightarrow> False)"
| "holds (Gt n) v = (case magnitude v of Some m \<Rightarrow> n < m | None \<Rightarrow> False)"
| "holds (Min n) v = (case magnitude v of Some m \<Rightarrow> n \<le> m | None \<Rightarrow> False)"

fun validate_field :: "tag \<Rightarrow> fval \<Rightarrow> bool" where
  "validate_field [] v = True"
| "validate_field (g # gs) v =
     (if g = [Omitempty] then (if hasValue v then validate_field gs v else True)
      else list_ex (\<lambda>c. holds c v) g \<and> validate_field gs v)"

text \<open>A struct as the validator sees it by reflection: the fields in order, each with
  its name, its tag and its current value.  \<^verbatim>\<open>validate.Struct\<close> reports the first
  field whose tag fails, or no error.\<close>

type_synonym field = "string \<times> tag \<times> fval"

fun validate_Struct :: "field list \<Rightarrow> string option" where
  "validate_Struct [] = None"
| "validate_Struct ((name, t, v) # fs) =
     (if validate_field t v then validate_Struct fs else Some name)"

text \<open>The struct tags of the source (lines 14-97), field by field.\<close>

definition fields_database :: "database \<Rightarrow> field list" where
  "fields_database c =
     [(''Type'', [], VString (database.Type c)),
      (''User'', [], VString (database.User c)),
      (''Password'', [], VString (database.Password c)),
      (''Host'', [], VString (database.Host c)),
      (''Name'', [], VString (database.Name c)),
      (''TablePrefix'', [], VString (database.TablePrefix c)),
      (''DBFile'', [], VString (database.DBFile c)),
      (''Port'', [], VInt (database.Port c)),
      (''Charset'', [], VString (database.Charset c))]"

definition fields_system :: "system \<Rightarrow> field list" where
  "fields_system c =
     [(''Mode'', [[Eq ''master'', Eq ''slave'']], VString (system.Mode c)),
      (''Listen'', [[Required]], VString (system.Listen c)),
      (''Debug'', [], VBool (system.Debug c)),
      (''SessionSecret'', [], VString (system.SessionSecret c)),
      (''HashIDSalt'', [], VString (system.HashIDSalt c))]"

definition fields_ssl :: "ssl \<Rightarrow> field list" where
  "fields_ssl c =
     [(''CertPath'', [[Omitempty], [Required]], VString (ssl.CertPath c)),
      (''KeyPath'', [[Omitempty], [Required]], VString (ssl.KeyPath c)),
      (''Listen'', [[Required]], VString (ssl.Listen c))]"

definition fields_unix :: "unix \<Rightarrow> field list" where
  "fields_unix c = [(''Listen'', [], VString (unix.Listen c))]"

definition fields_slave :: "slave \<Rightarrow> field list" where
  "fields_slave c =
     [(''Secret'', [[Omitempty], [Gte 64]], VString (slave.Secret c)),
      (''CallbackTimeout'', [[Omitempty], [Gte 1]], VInt (slave.CallbackTimeout c)),
      (''SignatureTTL'', [[Omitempty], [Gte 1]], VInt (slave.SignatureTTL c))]"

definition fields_captcha :: "captcha \<Rightarrow> field list" where
  "fields_captcha c =
     [(''Height'', [[Gte 0]], VInt (captcha.Height c)),
      (''Width'', [[Gte 0]], VInt (captcha.Width c)),
      (''Mode'', [[Gte 0], [Lte 3]], VInt (captcha.Mode c)),
      (''ComplexOfNoiseText'', [[Gte 0], [Lte 2]], VInt (captcha.ComplexOfNoiseText c)),
      (''ComplexOfNoiseDot'', [[Gte 0], [Lte 2]], VInt (captcha.ComplexOfNoiseDot c)),
      (''IsShowHollowLine'', [], VBool (captcha.IsShowHollowLine c)),
      (''IsShowNoiseDot'', [], VBool (captcha.IsShowNoiseDot c)),
      (''IsShowNoiseText'', [], VBool (captcha.IsShowNoiseText c)),
      (''IsShowSlimeLine'', [], VBool (captcha.IsShowSlimeLine c)),
      (''IsShowSineLine'', [], VBool (captcha.IsShowSineLine c)),
      (''CaptchaLen'', [[Gt 0]], VInt (captcha.CaptchaLen c))]"

definition fields_redis :: "redis \<Rightarrow> field list" where
  "fields_redis c =
     [(''Network'', [], VString (redis.Network c)),
      (''Server'', [], VString (redis.Server c)),
      (''Password'', [], VString (redis.Password c)),
      (''DB'', [], VString (redis.DB c))]"

definition fields_thumb :: "thumb \<Rightarrow> field list" where
  "fields_thumb c =
     [(''MaxWidth'', [], VUint (thumb.MaxWidth c)),
      (''MaxHeight'', [], VUint (thumb.MaxHeight c)),
      (''FileSuffix'', [[Min 1]], VString (thumb.FileSuffix c))]"

definition fields_cors :: "cors \<Rightarrow> field list" where
  "fields_cors c =
     [(''AllowOrigins'', [], VStrings (cors.AllowOrigins c)),
      (''AllowMethods'', [], VStrings (cors.AllowMethods c)),
      (''AllowHeaders'', [], VStrings (cors.AllowHeaders c)),
      (''AllowCredentials'', [], VBool (cors.AllowCredentials c)),
      (''ExposeHeaders'', [], VStrings (cors.ExposeHeaders c))]"

definition fields_rclone :: "rclone \<Rightarrow> field list" where
  "fields_rclone c =
     [(''Config'', [], VString (rclone.Config c)),
      (''Binds'', [], VStrings (rclone.Binds c))]"

section \<open>The process state and its environment\<close>

datatype node = File string | Dir

text \<open>A filesystem handle of the afero interface: the local filesystem, a remote one
  built from a target string, or the composite built from a table of bind points.\<close>

datatype afero_Fs =
    OsFs
  | RCloneFs string
  | BindPathFs "string \<Rightarrow> afero_Fs option"

datatype level = LevelError | LevelWarning | LevelInformational | LevelDebug

text \<open>The calls to the logging sink, by severity and by call site.  The arguments are
  those of the format string at that call site.\<close>

datatype severity = SevPanic | SevWarning | SevInfo

datatype message =
    CannotCreate string
  | CannotWrite string
  | CannotParse string string
  | SectionError string string
  | MkdirError string
  | UnsupportedOS string
  | ConfigNotFound string
  | Binding string string
  | AbsPathError string
  | BadBindFormat string

datatype panic = Fatal message | IndexOutOfRange | NilPointer

datatype outcome = Returned | Panicked panic

type_synonym ini_Section = "string \<Rightarrow> string option"
type_synonym ini_File = "string \<Rightarrow> ini_Section"

text \<open>The package-level variables that \<^verbatim>\<open>Init\<close> reads and writes, the files on disk,
  the file handles that are open, and the calls made to the logger, in order.\<close>

record world =
  files :: "string \<Rightarrow> node option"
  open_files :: "string list"
  rand_used :: nat
  cfg :: "ini_File option"
  DatabaseConfig :: database
  SystemConfig :: system
  SSLConfig :: ssl
  UnixConfig :: unix
  SlaveConfig :: slave
  CaptchaConfig :: captcha
  RedisConfig :: redis
  ThumbConfig :: thumb
  CORSConfig :: cors
  RCloneConfig :: rclone
  Level :: level
  GloablLogger :: "level option"
  logged :: "(severity \<times> message) list"
  OS :: afero_Fs
  rclone_ConfigPath :: "string option"

text \<open>What the package takes from outside: the platform, the random source, the order
  in which Go ranges over a map (unspecified by the language, fixed here by a number),
  the failures of the operating system, the ini library (parsing, and mapping a
  section onto a struct, which may leave the struct changed even when it fails), and
  the resolution of a path against the working directory.\<close>

record env =
  GOOS :: string
  rand_Intn :: "nat \<Rightarrow> nat"
  replace_order :: nat
  sections_order :: nat
  mkdir_error :: "string \<Rightarrow> string option"
  create_error :: "string \<Rightarrow> string option"
  write_error :: "string \<Rightarrow> (string \<times> nat) option"
  ini_parse :: "string \<Rightarrow> string + ini_File"
  MapTo_database :: "ini_Section \<Rightarrow> database \<Rightarrow> string option \<times> database"
  MapTo_system :: "ini_Section \<Rightarrow> system \<Rightarrow> string option \<times> system"
  MapTo_ssl :: "ini_Section \<Rightarrow> ssl \<Rightarrow> string option \<times> ssl"
  MapTo_unix :: "ini_Section \<Rightarrow> unix \<Rightarrow> string option \<times> unix"
  MapTo_slave :: "ini_Section \<Rightarrow> slave \<Rightarrow> string option \<times> slave"
  MapTo_captcha :: "ini_Section \<Rightarrow> captcha \<Rightarrow> string option \<times> captcha"
  MapTo_redis :: "ini_Section \<Rightarrow> redis \<Rightarrow> string option \<times> redis"
  MapTo_thumb :: "ini_Section \<Rightarrow> thumb \<Rightarrow> string option \<times> thumb"
  MapTo_cors :: "ini_Section \<Rightarrow> cors \<Rightarrow> string option \<times> cors"
  MapTo_rclone :: "ini_Section \<Rightarrow> rclone \<Rightarrow> string option \<times> rclone"
  filepath_Abs :: "string \<Rightarrow> string option"

section \<open>Go's library functions used by the package\<close>

text \<open>Ranging over a map visits every entry once, in an order the language leaves
  open.  The number \<open>seed\<close> selects the order: its digits in the factorial number
  system pick the next entry among those left.\<close>

fun pick_order :: "nat \<Rightarrow> nat \<Rightarrow> 'a list \<Rightarrow> 'a list" where
  "pick_order 0 seed xs = []"
| "pick_order (Suc n) seed xs =
     (if xs = [] then []
      else (let i = seed mod length xs
            in xs ! i # pick_order n (seed div length xs) (take i xs @ drop (Suc i) xs)))"

definition range_order :: "nat \<Rightarrow> 'a list \<Rightarrow> 'a list" where
  "range_order seed xs = pick_order (length xs) seed xs"

text \<open>\<^verbatim>\<open>strings.Index\<close>: the position of the first occurrence of \<open>sep\<close>.\<close>

fun Index :: "string \<Rightarrow> string \<Rightarrow> nat option" where
  "Index [] sep = (if sep = [] then Some 0 else None)"
| "Index (c # cs) sep =
     (if prefix sep (c # cs) then Some 0 else map_option Suc (Index cs sep))"

text \<open>\<^verbatim>\<open>strings.SplitN\<close> for a non-empty separator and a count \<open>n \<ge> 0\<close>: at most
  \<open>n\<close> pieces, the last one the unsplit rest.\<close>

fun SplitN :: "string \<Rightarrow> string \<Rightarrow> nat \<Rightarrow> string list" where
  "SplitN s sep 0 = []"
| "SplitN s sep (Suc 0) = [s]"
| "SplitN s sep (Suc (Suc n)) =
     (case Index s sep of
        None \<Rightarrow> [s]
      | Some i \<Rightarrow> take i s # SplitN (drop (i + length sep) s) sep (Suc n))"

text \<open>\<^verbatim>\<open>strings.Replace(s, old, new, -1)\<close> for a non-empty \<open>old\<close>: every
  non-overlapping occurrence, from the left.\<close>

fun strings_Replace :: "string \<Rightarrow> string \<Rightarrow> string \<Rightarrow> string" where
  "strings_Replace [] old new = []"
| "strings_Replace (c # cs) old new =
     (if old \<noteq> [] \<and> prefix old (c # cs)
      then new @ strings_Replace (drop (length old) (c # cs)) old new
      else c # strings_Replace cs old new)"

section \<open>The helpers of pkg/util\<close>

text \<open>
  Modelled from the spec: the package pkg/util of the repository is not among the
  sources.  Section 6 of the specification lists what \<^verbatim>\<open>conf\<close> consumes from it: a
  filesystem existence check, a random-string generator, a logging sink with settable
  verbosity whose panic level ends the process; sections 4.1 and 4.2 describe the
  substitution of the placeholders and the creation of the file together with its
  missing parent directories.
\<close>

definition Exists :: "world \<Rightarrow> string \<Rightarrow> bool" where
  "Exists w path = (files w path \<noteq> None)"

definition letterRunes :: string where
  "letterRunes = ''1234567890abcdefghijklmnopqrstuvwxyzABCDEFGHIJKLMNOPQRSTUVWXYZ''"

definition RandStringRunes :: "env \<Rightarrow> nat \<Rightarrow> world \<Rightarrow> string \<times> world" where
  "RandStringRunes e n w =
     (map (\<lambda>i. letterRunes ! (rand_Intn e (rand_used w + i) mod length letterRunes)) [0..<n],
      w\<lparr>rand_used := rand_used w + n\<rparr>)"

definition Replace :: "env \<Rightarrow> (string \<times> string) list \<Rightarrow> string \<Rightarrow> string" where
  "Replace e table s =
     foldl (\<lambda>s (key, val). strings_Replace s key val) s (range_order (replace_order e) table)"

text \<open>\<^verbatim>\<open>util.Log()\<close> creates the logger at the current level when there is none.\<close>

definition Log :: "world \<Rightarrow> world" where
  "Log w = (case GloablLogger w of None \<Rightarrow> w\<lparr>GloablLogger := Some (Level w)\<rparr> | Some l \<Rightarrow> w)"

definition emit :: "severity \<Rightarrow> message \<Rightarrow> world \<Rightarrow> world" where
  "emit sev msg w = (Log w)\<lparr>logged := logged w @ [(sev, msg)]\<rparr>"

abbreviation Warning :: "message \<Rightarrow> world \<Rightarrow> world" where
  "Warning \<equiv> emit SevWarning"

abbreviation Info :: "message \<Rightarrow> world \<Rightarrow> world" where
  "Info \<equiv> emit SevInfo"

abbreviation Panic :: "message \<Rightarrow> world \<Rightarrow> world" where
  "Panic \<equiv> emit SevPanic"

text \<open>The directory part of a path in clean form: the path up to its last separator,
  without trailing separators; \<open>.\<close> when there is none.\<close>

definition filepath_Dir :: "string \<Rightarrow> string" where
  "filepath_Dir path =
     (let d = rev (dropWhile (\<lambda>c. c \<noteq> CHR ''/'') (rev path));
          t = rev (dropWhile (\<lambda>c. c = CHR ''/'') (rev d))
      in if d = [] then ''.'' else if t = [] then ''/'' else t)"

text \<open>A directory and the directories above it, outermost first.\<close>

definition dir_chain :: "string \<Rightarrow> string list" where
  "dir_chain d = [take i d. i \<leftarrow> [1..<length d], d ! i = CHR ''/''] @ [d]"

definition MkdirAll :: "env \<Rightarrow> string \<Rightarrow> world \<Rightarrow> string option \<times> world" where
  "MkdirAll e d w =
     (case mkdir_error e d of
        Some err \<Rightarrow> (Some err, w)
      | None \<Rightarrow>
          (None, w\<lparr>files := (\<lambda>p. if p \<in> set (dir_chain d) \<and> files w p = None
                                  then Some Dir else files w p)\<rparr>))"

text \<open>Creating a file truncates it and opens a handle on it; the handle is named by
  the path.  No file can be created under the empty name: the operating system
  refuses to open it, whatever the state of the disk.\<close>

definition Create :: "env \<Rightarrow> string \<Rightarrow> world \<Rightarrow> (string + string) \<times> world" where
  "Create e path w =
     (if path = [] then (Inl ''no such file or directory'', w)
      else case create_error e path of
        Some err \<Rightarrow> (Inl err, w)
      | None \<Rightarrow> (Inr path, w\<lparr>files := (files w)(path \<mapsto> File []),
                             open_files := path # open_files w\<rparr>))"

definition CreatNestedFile :: "env \<Rightarrow> string \<Rightarrow> world \<Rightarrow> (string + string) \<times> world" where
  "CreatNestedFile e path w =
     (let basePath = filepath_Dir path
      in if \<not> Exists w basePath
         then (case MkdirAll e basePath w of
                 (Some err, w1) \<Rightarrow> (Inl err, Warning (MkdirError err) w1)
               | (None, w1) \<Rightarrow> Create e path w1)
         else Create e path w)"

text \<open>Writing through a handle appends to the file; a failed write may have written
  the first \<open>n\<close> characters.\<close>

definition append_file :: "string \<Rightarrow> string \<Rightarrow> world \<Rightarrow> world" where
  "append_file f s w =
     w\<lparr>files := (files w)(f \<mapsto> File ((case files w f of Some (File c) \<Rightarrow> c | _ \<Rightarrow> []) @ s))\<rparr>"

definition WriteString :: "env \<Rightarrow> string \<Rightarrow> string \<Rightarrow> world \<Rightarrow> string option \<times> world" where
  "WriteString e f s w =
     (case write_error e f of
        Some (err, n) \<Rightarrow> (Some err, append_file f (take n s) w)
      | None \<Rightarrow> (None, append_file f s w))"

definition Close :: "string \<Rightarrow> world \<Rightarrow> world" where
  "Close f w = w\<lparr>open_files := remove1 f (open_files w)\<rparr>"

section \<open>Init (lines 99-181)\<close>

definition defaultConf :: string where
  "defaultConf =
     ''[System]\<newline>Mode = master\<newline>Listen = :5212\<newline>SessionSecret = {SessionSecret}\<newline>HashIDSalt = {HashIDSalt}\<newline>''"

text \<open>Lines 112-130: the file is created when the path is empty or names nothing.  The
  two secrets are drawn in the order of the map literal.\<close>

definition Init_create :: "env \<Rightarrow> string \<Rightarrow> world \<Rightarrow> outcome \<times> world" where
  "Init_create e path w =
     (if path = [] \<or> \<not> Exists w path then
        (let (s1, w1) = RandStringRunes e 64 w;
             (s2, w2) = RandStringRunes e 64 w1;
             confContent = Replace e [(''{SessionSecret}'', s1), (''{HashIDSalt}'', s2)] defaultConf
         in case CreatNestedFile e path w2 of
              (Inl err, w3) \<Rightarrow> (Panicked (Fatal (CannotCreate err)), Panic (CannotCreate err) w3)
            | (Inr f, w3) \<Rightarrow>
                (case WriteString e f confContent w3 of
                   (Some err, w4) \<Rightarrow>
                     (Panicked (Fatal (CannotWrite err)), Panic (CannotWrite err) w4)
                 | (None, w4) \<Rightarrow> (Returned, Close f w4)))
      else (Returned, w))"

text \<open>\<^verbatim>\<open>ini.Load(path)\<close> reads the file at the path and parses its content.\<close>

definition Load :: "env \<Rightarrow> string \<Rightarrow> world \<Rightarrow> string + ini_File" where
  "Load e path w =
     (case files w path of
        Some (File content) \<Rightarrow> ini_parse e content
      | _ \<Rightarrow> Inl ''open'')"

text \<open>Lines 167-181, for a struct of any of the ten types: \<open>MapTo\<close> and \<open>reflect\<close>
  are the mapping and the reflection of that type.  The struct is written through
  the pointer, so the caller sees it changed also when an error is returned.\<close>

definition mapSection ::
  "(ini_Section \<Rightarrow> 's \<Rightarrow> string option \<times> 's) \<Rightarrow> ('s \<Rightarrow> field list) \<Rightarrow>
     ini_File \<Rightarrow> string \<Rightarrow> 's \<Rightarrow> string option \<times> 's" where
  "mapSection MapTo reflect f section confStruct =
     (case MapTo (f section) confStruct of
        (Some err, c) \<Rightarrow> (Some err, c)
      | (None, c) \<Rightarrow> (validate_Struct (reflect c), c))"

text \<open>The values of the map \<^verbatim>\<open>sections\<close> (lines 137-148): pointers to the ten
  package-level structs.\<close>

datatype conf_ptr =
    PDatabaseConfig | PSystemConfig | PSSLConfig | PUnixConfig | PCaptchaConfig
  | PRedisConfig | PThumbConfig | PCORSConfig | PRCloneConfig | PSlaveConfig

definition sections :: "(string \<times> conf_ptr) list" where
  "sections =
     [(''Database'', PDatabaseConfig),
      (''System'', PSystemConfig),
      (''SSL'', PSSLConfig),
      (''UnixSocket'', PUnixConfig),
      (''Captcha'', PCaptchaConfig),
      (''Redis'', PRedisConfig),
      (''Thumbnail'', PThumbConfig),
      (''CORS'', PCORSConfig),
      (''RClone'', PRCloneConfig),
      (''Slave'', PSlaveConfig)]"

text \<open>The call \<^verbatim>\<open>mapSection(sectionName, sectionStruct)\<close> on the global \<^verbatim>\<open>cfg\<close>.\<close>

fun mapSection_at :: "env \<Rightarrow> ini_File \<Rightarrow> string \<Rightarrow> conf_ptr \<Rightarrow> world \<Rightarrow> string option \<times> world" where
  "mapSection_at e f n PDatabaseConfig w =
     (let (r, c) = mapSection (MapTo_database e) fields_database f n (DatabaseConfig w)
      in (r, w\<lparr>DatabaseConfig := c\<rparr>))"
| "mapSection_at e f n PSystemConfig w =
     (let (r, c) = mapSection (MapTo_system e) fields_system f n (SystemConfig w)
      in (r, w\<lparr>SystemConfig := c\<rparr>))"
| "mapSection_at e f n PSSLConfig w =
     (let (r, c) = mapSection (MapTo_ssl e) fields_ssl f n (SSLConfig w)
      in (r, w\<lparr>SSLConfig := c\<rparr>))"
| "mapSection_at e f n PUnixConfig w =
     (let (r, c) = mapSection (MapTo_unix e) fields_unix f n (UnixConfig w)
      in (r, w\<lparr>UnixConfig := c\<rparr>))"
| "mapSection_at e f n PCaptchaConfig w =
     (let (r, c) = mapSection (MapTo_captcha e) fields_captcha f n (CaptchaConfig w)
      in (r, w\<lparr>CaptchaConfig := c\<rparr>))"
| "mapSection_at e f n PRedisConfig w =
     (let (r, c) = mapSection (MapTo_redis e) fields_redis f n (RedisConfig w)
      in (r, w\<lparr>RedisConfig := c\<rparr>))"
| "mapSection_at e f n PThumbConfig w =
     (let (r, c) = mapSection (MapTo_thumb e) fields_thumb f n (ThumbConfig w)
      in (r, w\<lparr>ThumbConfig := c\<rparr>))"
| "mapSection_at e f n PCORSConfig w =
     (let (r, c) = mapSection (MapTo_cors e) fields_cors f n (CORSConfig w)
      in (r, w\<lparr>CORSConfig := c\<rparr>))"
| "mapSection_at e f n PRCloneConfig w =
     (let (r, c) = mapSection (MapTo_rclone e) fields_rclone f n (RCloneConfig w)
      in (r, w\<lparr>RCloneConfig := c\<rparr>))"
| "mapSection_at e f n PSlaveConfig w =
     (let (r, c) = mapSection (MapTo_slave e) fields_slave f n (SlaveConfig w)
      in (r, w\<lparr>SlaveConfig := c\<rparr>))"

text \<open>Lines 149-154: the loop over the sections, in the order the range yields them.
  A nil \<^verbatim>\<open>cfg\<close> would be dereferenced by \<^verbatim>\<open>cfg.Section\<close>.\<close>

fun map_sections :: "env \<Rightarrow> (string \<times> conf_ptr) list \<Rightarrow> world \<Rightarrow> outcome \<times> world" where
  "map_sections e [] w = (Returned, w)"
| "map_sections e ((sectionName, sectionStruct) # rest) w =
     (case cfg w of
        None \<Rightarrow> (Panicked NilPointer, w)
      | Some f \<Rightarrow>
          (case mapSection_at e f sectionName sectionStruct w of
             (Some err, w1) \<Rightarrow>
               (Panicked (Fatal (SectionError sectionName err)),
                Panic (SectionError sectionName err) w1)
           | (None, w1) \<Rightarrow> map_sections e rest w1))"

text \<open>Lines 156-161.\<close>

definition reset_log_level :: "world \<Rightarrow> world" where
  "reset_log_level w =
     (if \<not> system.Debug (SystemConfig w)
      then Log (w\<lparr>Level := LevelInformational, GloablLogger := None\<rparr>)
      else w)"

section \<open>initRCloneBind (lines 184-219)\<close>

text \<open>Lines 204-216: the loop over the bind entries.  The result is the table when
  the loop runs to its end, and nothing when a malformed entry makes the function
  return from inside the loop.\<close>

fun bind_loop ::
  "env \<Rightarrow> string list \<Rightarrow> (string \<Rightarrow> afero_Fs option) \<Rightarrow> world \<Rightarrow>
     (string \<Rightarrow> afero_Fs option) option \<times> world" where
  "bind_loop e [] bindPoints w = (Some bindPoints, w)"
| "bind_loop e (kv # kvs) bindPoints w =
     (case SplitN kv '':'' 2 of
        [b0, b1] \<Rightarrow>
          (let w1 = Info (Binding b1 b0) w
           in case filepath_Abs e b0 of
                Some target \<Rightarrow> bind_loop e kvs (bindPoints(target \<mapsto> RCloneFs b1)) w1
              | None \<Rightarrow> bind_loop e kvs bindPoints (Warning (AbsPathError b0) w1))
      | _ \<Rightarrow> (None, Warning (BadBindFormat kv) w))"

definition initRCloneBind :: "env \<Rightarrow> world \<Rightarrow> outcome \<times> world" where
  "initRCloneBind e w =
     (if GOOS e \<noteq> ''linux'' then (Returned, Warning (UnsupportedOS (GOOS e)) w)
      else case rclone.Binds (RCloneConfig w) of
        [] \<Rightarrow> (Panicked IndexOutOfRange, w)
      | first # others \<Rightarrow>
          if first = ''UNSET'' then (Returned, w)
          else if Exists w (rclone.Config (RCloneConfig w)) then
            (let w1 = w\<lparr>rclone_ConfigPath := Some (rclone.Config (RCloneConfig w))\<rparr>
             in case bind_loop e (rclone.Binds (RCloneConfig w)) [''/'' \<mapsto> OsFs] w1 of
                  (None, w2) \<Rightarrow> (Returned, w2)
                | (Some bindPoints, w2) \<Rightarrow> (Returned, w2\<lparr>OS := BindPathFs bindPoints\<rparr>))
          else (Returned, Warning (ConfigNotFound (rclone.Config (RCloneConfig w))) w))"

section \<open>Init as a whole (lines 109-164)\<close>

definition Init :: "env \<Rightarrow> string \<Rightarrow> world \<Rightarrow> outcome \<times> world" where
  "Init e path w =
     (case Init_create e path w of
        (Panicked p, w1) \<Rightarrow> (Panicked p, w1)
      | (Returned, w1) \<Rightarrow>
          (case Load e path w1 of
             Inl err \<Rightarrow>
               (Panicked (Fatal (CannotParse path err)),
                Panic (CannotParse path err) (w1\<lparr>cfg := None\<rparr>))
           | Inr f \<Rightarrow>
               (case map_sections e (range_order (sections_order e) sections)
                       (w1\<lparr>cfg := Some f\<rparr>) of
                  (Panicked p, w2) \<Rightarrow> (Panicked p, w2)
                | (Returned, w2) \<Rightarrow> initRCloneBind e (reset_log_level w2))))"

section \<open>What the specification expects of the bind step\<close>

text \<open>The two parts of a bind entry, split at its first colon (section 6 of the
  specification: \<^verbatim>\<open><localPath>:<remoteTarget>\<close>), the table that section 4.6 describes
  (one entry per bind whose local part resolves, added to the given table), and the
  log calls of a loop that runs over well-formed entries.\<close>

definition local_part :: "string \<Rightarrow> string" where
  "local_part kv = takeWhile (\<lambda>c. c \<noteq> CHR '':'') kv"

definition remote_part :: "string \<Rightarrow> string" where
  "remote_part kv = tl (dropWhile (\<lambda>c. c \<noteq> CHR '':'') kv)"

definition table_of ::
  "(string \<Rightarrow> string option) \<Rightarrow> string list \<Rightarrow> (string \<Rightarrow> afero_Fs option) \<Rightarrow> (string \<Rightarrow> afero_Fs option)" where
  "table_of resolve kvs t =
     foldl (\<lambda>t kv. case resolve (local_part kv) of
                      Some target \<Rightarrow> t(target \<mapsto> RCloneFs (remote_part kv))
                    | None \<Rightarrow> t) t kvs"

definition bind_log :: "(string \<Rightarrow> string option) \<Rightarrow> string list \<Rightarrow> (severity \<times> message) list" where
  "bind_log resolve kvs =
     concat (map (\<lambda>kv. (SevInfo, Binding (remote_part kv) (local_part kv)) #
                        (case resolve (local_part kv) of
                           None \<Rightarrow> [(SevWarning, AbsPathError (local_part kv))]
                         | Some target \<Rightarrow> [])) kvs)"

text \<open>Two states that differ at most in the logger and its log: every other
  component is equal, and the log of the second extends the log of the first.\<close>

definition untouched :: "world \<Rightarrow> world \<Rightarrow> bool" where
  "untouched w w' \<longleftrightarrow>
     files w' = files w \<and> open_files w' = open_files w \<and> rand_used w' = rand_used w \<and>
     cfg w' = cfg w \<and> DatabaseConfig w' = DatabaseConfig w \<and> SystemConfig w' = SystemConfig w \<and>
     SSLConfig w' = SSLConfig w \<and> UnixConfig w' = UnixConfig w \<and> SlaveConfig w' = SlaveConfig w \<and>
     CaptchaConfig w' = CaptchaConfig w \<and> RedisConfig w' = RedisConfig w \<and>
     ThumbConfig w' = ThumbConfig w \<and> CORSConfig w' = CORSConfig w \<and>
     RCloneConfig w' = RCloneConfig w \<and> OS w' = OS w \<and>
     rclone_ConfigPath w' = rclone_ConfigPath w \<and> prefix (logged w) (logged w')"

text \<open>Two states with the same files, open handles and use of the random source; two
  states with the same ten structs.\<close>

definition same_disk :: "world \<Rightarrow> world \<Rightarrow> bool" where
  "same_disk w w' \<longleftrightarrow>
     files w' = files w \<and> open_files w' = open_files w \<and> rand_used w' = rand_used w"

definition same_configs :: "world \<Rightarrow> world \<Rightarrow> bool" where
  "same_configs w w' \<longleftrightarrow>
     DatabaseConfig w' = DatabaseConfig w \<and> SystemConfig w' = SystemConfig w \<and>
     SSLConfig w' = SSLConfig w \<and> UnixConfig w' = UnixConfig w \<and> SlaveConfig w' = SlaveConfig w \<and>
     CaptchaConfig w' = CaptchaConfig w \<and> RedisConfig w' = RedisConfig w \<and>
     ThumbConfig w' = ThumbConfig w \<and> CORSConfig w' = CORSConfig w \<and>
     RCloneConfig w' = RCloneConfig w"

text \<open>\<^verbatim>\<open>Init\<close> from line 132 on, once the file is in place.\<close>

definition Init_rest :: "env \<Rightarrow> string \<Rightarrow> world \<Rightarrow> outcome \<times> world" where
  "Init_rest e path w1 =
     (case Load e path w1 of
        Inl err \<Rightarrow>
          (Panicked (Fatal (CannotParse path err)),
           Panic (CannotParse path err) (w1\<lparr>cfg := None\<rparr>))
      | Inr f \<Rightarrow>
          (case map_sections e (range_order (sections_order e) sections)
                  (w1\<lparr>cfg := Some f\<rparr>) of
             (Panicked p, w2) \<Rightarrow> (Panicked p, w2)
           | (Returned, w2) \<Rightarrow> initRCloneBind e (reset_log_level w2)))"

text \<open>The two secrets that \<^verbatim>\<open>Init\<close> draws from state \<open>w\<close>, and the default
  configuration with two given strings in the place of its placeholders.\<close>

definition session_secret :: "env \<Rightarrow> world \<Rightarrow> string" where
  "session_secret e w = fst (RandStringRunes e 64 w)"

definition hashid_salt :: "env \<Rightarrow> world \<Rightarrow> string" where
  "hashid_salt e w = fst (RandStringRunes e 64 (snd (RandStringRunes e 64 w)))"

definition conf_with :: "string \<Rightarrow> string \<Rightarrow> string" where
  "conf_with s1 s2 =
     ''[System]\<newline>Mode = master\<newline>Listen = :5212\<newline>SessionSecret = '' @ s1 @
     ''\<newline>HashIDSalt = '' @ s2 @ ''\<newline>''"

text \<open>The verdict of the validator on the struct behind a pointer, in a given state.\<close>

fun validate_at :: "conf_ptr \<Rightarrow> world \<Rightarrow> string option" where
  "validate_at PDatabaseConfig w = validate_Struct (fields_database (DatabaseConfig w))"
| "validate_at PSystemConfig w = validate_Struct (fields_system (SystemConfig w))"
| "validate_at PSSLConfig w = validate_Struct (fields_ssl (SSLConfig w))"
| "validate_at PUnixConfig w = validate_Struct (fields_unix (UnixConfig w))"
| "validate_at PCaptchaConfig w = validate_Struct (fields_captcha (CaptchaConfig w))"
| "validate_at PRedisConfig w = validate_Struct (fields_redis (RedisConfig w))"
| "validate_at PThumbConfig w = validate_Struct (fields_thumb (ThumbConfig w))"
| "validate_at PCORSConfig w = validate_Struct (fields_cors (CORSConfig w))"
| "validate_at PRCloneConfig w = validate_Struct (fields_rclone (RCloneConfig w))"
| "validate_at PSlaveConfig w = validate_Struct (fields_slave (SlaveConfig w))"

section \<open>A concrete environment and state\<close>

text \<open>A Linux host on which no system call fails, an ini file without keys, and the
  package-level structs at plausible defaults; the bind list is left open.\<close>

definition linux_env :: env where
  "linux_env =
     \<lparr>GOOS = ''linux'',
      rand_Intn = (\<lambda>i. i),
      replace_order = 0,
      sections_order = 0,
      mkdir_error = (\<lambda>p. None),
      create_error = (\<lambda>p. None),
      write_error = (\<lambda>p. None),
      ini_parse = (\<lambda>content. Inr (\<lambda>n k. None)),
      MapTo_database = (\<lambda>s c. (None, c)),
      MapTo_system = (\<lambda>s c. (None, c)),
      MapTo_ssl = (\<lambda>s c. (None, c)),
      MapTo_unix = (\<lambda>s c. (None, c)),
      MapTo_slave = (\<lambda>s c. (None, c)),
      MapTo_captcha = (\<lambda>s c. (None, c)),
      MapTo_redis = (\<lambda>s c. (None, c)),
      MapTo_thumb = (\<lambda>s c. (None, c)),
      MapTo_cors = (\<lambda>s c. (None, c)),
      MapTo_rclone = (\<lambda>s c. (None, c)),
      filepath_Abs = (\<lambda>p. if take 1 p = ''/'' then Some p else None)\<rparr>"

definition start_world :: "string list \<Rightarrow> world" where
  "start_world binds =
     \<lparr>files = [''/etc/cloudreve/conf.ini'' \<mapsto> File ''[System]'', ''/etc/rclone.conf'' \<mapsto> File []],
      open_files = [],
      rand_used = 0,
      cfg = None,
      DatabaseConfig = \<lparr>database.Type = ''UNSET'', User = [], Password = [], Host = [],
                         Name = [], TablePrefix = [], DBFile = ''cloudreve.db'', Port = 3306,
                         Charset = ''utf8''\<rparr>,
      SystemConfig = \<lparr>system.Mode = ''master'', Listen = '':5212'', Debug = False,
                       SessionSecret = [], HashIDSalt = []\<rparr>,
      SSLConfig = \<lparr>CertPath = [], KeyPath = [], Listen = '':443''\<rparr>,
      UnixConfig = \<lparr>unix.Listen = []\<rparr>,
      SlaveConfig = \<lparr>Secret = [], CallbackTimeout = 20, SignatureTTL = 60\<rparr>,
      CaptchaConfig = \<lparr>Height = 60, Width = 240, captcha.Mode = 3, ComplexOfNoiseText = 0,
                        ComplexOfNoiseDot = 0, IsShowHollowLine = False, IsShowNoiseDot = False,
                        IsShowNoiseText = False, IsShowSlimeLine = False,
                        IsShowSineLine = False, CaptchaLen = 6\<rparr>,
      RedisConfig = \<lparr>Network = ''tcp'', Server = [], redis.Password = [], DB = ''0''\<rparr>,
      ThumbConfig = \<lparr>MaxWidth = 400, MaxHeight = 300, FileSuffix = ''._thumb''\<rparr>,
      CORSConfig = \<lparr>AllowOrigins = [''UNSET''], AllowMethods = [], AllowHeaders = [],
                     AllowCredentials = False, ExposeHeaders = []\<rparr>,
      RCloneConfig = \<lparr>Config = ''/etc/rclone.conf'', Binds = binds\<rparr>,
      Level = LevelDebug,
      GloablLogger = None,
      logged = [],
      OS = OsFs,
      rclone_ConfigPath = None\<rparr>"

text \<open>The same host with a full disk: every write fails before its first byte.\<close>

definition full_disk_env :: env where
  "full_disk_env = linux_env\<lparr>write_error := (\<lambda>f. Some (''no space left on device'', 0))\<rparr>"

section \<open>Auxiliary facts\<close>

lemma SplitN_2:
  "SplitN s sep 2 = (case Index s sep of None \<Rightarrow> [s] | Some i \<Rightarrow> [take i s, drop (i + length sep) s])"
  by (simp add: numeral_2_eq_2 split: option.splits)

lemma Index_colon_none: "CHR '':'' \<notin> set s \<Longrightarrow> Index s '':'' = None"
  by (induction s) auto

lemma Index_colon_some: "CHR '':'' \<notin> set l \<Longrightarrow> Index (l @ CHR '':'' # r) '':'' = Some (length l)"
  by (induction l) auto

lemma SplitN_no_colon: "CHR '':'' \<notin> set kv \<Longrightarrow> SplitN kv '':'' 2 = [kv]"
  by (simp add: SplitN_2 Index_colon_none)

lemma SplitN_first_colon: "CHR '':'' \<notin> set l \<Longrightarrow> SplitN (l @ CHR '':'' # r) '':'' 2 = [l, r]"
  by (simp add: SplitN_2 Index_colon_some)

lemma colon_decompose:
  "CHR '':'' \<in> set kv \<Longrightarrow> kv = local_part kv @ CHR '':'' # remote_part kv"
  unfolding local_part_def remote_part_def by (induction kv) auto

lemma local_part_no_colon: "CHR '':'' \<notin> set (local_part kv)"
  unfolding local_part_def by (auto dest: set_takeWhileD)

lemma parts_of_entry:
  "CHR '':'' \<notin> set l \<Longrightarrow> local_part (l @ CHR '':'' # r) = l \<and> remote_part (l @ CHR '':'' # r) = r"
  unfolding local_part_def remote_part_def by (induction l) auto

lemma SplitN_colon:
  assumes "CHR '':'' \<in> set kv"
  shows "SplitN kv '':'' 2 = [local_part kv, remote_part kv]"
proof -
  have "SplitN (local_part kv @ CHR '':'' # remote_part kv) '':'' 2 = [local_part kv, remote_part kv]"
    using local_part_no_colon by (rule SplitN_first_colon)
  with colon_decompose [OF assms] show ?thesis by simp
qed

lemma emit_frame [simp]:
  "files (emit s m w) = files w"
  "open_files (emit s m w) = open_files w"
  "rand_used (emit s m w) = rand_used w"
  "cfg (emit s m w) = cfg w"
  "DatabaseConfig (emit s m w) = DatabaseConfig w"
  "SystemConfig (emit s m w) = SystemConfig w"
  "SSLConfig (emit s m w) = SSLConfig w"
  "UnixConfig (emit s m w) = UnixConfig w"
  "SlaveConfig (emit s m w) = SlaveConfig w"
  "CaptchaConfig (emit s m w) = CaptchaConfig w"
  "RedisConfig (emit s m w) = RedisConfig w"
  "ThumbConfig (emit s m w) = ThumbConfig w"
  "CORSConfig (emit s m w) = CORSConfig w"
  "RCloneConfig (emit s m w) = RCloneConfig w"
  "OS (emit s m w) = OS w"
  "rclone_ConfigPath (emit s m w) = rclone_ConfigPath w"
  "logged (emit s m w) = logged w @ [(s, m)]"
  by (simp_all add: emit_def Log_def split: option.splits)

lemma Exists_emit [simp]: "Exists (emit s m w) p = Exists w p"
  by (simp add: Exists_def)

lemma untouched_refl [simp]: "untouched w w"
  by (simp add: untouched_def)

lemma untouched_emit [simp]: "untouched w (emit s m w)"
  by (simp add: untouched_def)

lemma untouched_trans: "untouched a b \<Longrightarrow> untouched b c \<Longrightarrow> untouched a c"
  unfolding untouched_def by (metis prefix_order.order_trans)

lemma bind_loop_ok:
  "CHR '':'' \<in> set kv \<Longrightarrow>
   bind_loop e (kv # kvs) bp w =
     (case filepath_Abs e (local_part kv) of
        Some target \<Rightarrow>
          bind_loop e kvs (bp(target \<mapsto> RCloneFs (remote_part kv)))
            (Info (Binding (remote_part kv) (local_part kv)) w)
      | None \<Rightarrow>
          bind_loop e kvs bp
            (Warning (AbsPathError (local_part kv)) (Info (Binding (remote_part kv) (local_part kv)) w)))"
  by (simp add: SplitN_colon Let_def)

lemma bind_loop_bad:
  "CHR '':'' \<notin> set kv \<Longrightarrow> bind_loop e (kv # kvs) bp w = (None, Warning (BadBindFormat kv) w)"
  by (simp add: SplitN_no_colon)

declare bind_loop.simps(2) [simp del]

lemma bind_loop_untouched: "untouched w (snd (bind_loop e kvs bp w))"
proof (induction kvs arbitrary: bp w)
  case Nil
  show ?case by simp
next
  case (Cons kv kvs)
  show ?case
  proof (cases "CHR '':'' \<in> set kv")
    case False
    then show ?thesis by (simp add: bind_loop_bad del: bind_loop.simps)
  next
    case True
    have "untouched w (Info (Binding (remote_part kv) (local_part kv)) w)" by simp
    moreover have "untouched w
        (Warning (AbsPathError (local_part kv)) (Info (Binding (remote_part kv) (local_part kv)) w))"
      by (rule untouched_trans [where b = "Info (Binding (remote_part kv) (local_part kv)) w"]) simp_all
    ultimately show ?thesis using True
      by (auto simp add: bind_loop_ok simp del: bind_loop.simps split: option.splits
            intro: untouched_trans [OF _ Cons.IH])
  qed
qed

lemma bind_loop_next:
  assumes "CHR '':'' \<in> set kv"
  obtains bp' w' where "bind_loop e (kv # kvs) bp w = bind_loop e kvs bp' w'"
    and "length (logged w) < length (logged w')"
proof (cases "filepath_Abs e (local_part kv)")
  case None
  with assms that [of bp "Warning (AbsPathError (local_part kv)) (Info (Binding (remote_part kv) (local_part kv)) w)"]
  show ?thesis by (simp add: bind_loop_ok del: bind_loop.simps)
next
  case (Some t)
  with assms that [of "bp(t \<mapsto> RCloneFs (remote_part kv))" "Info (Binding (remote_part kv) (local_part kv)) w"]
  show ?thesis by (simp add: bind_loop_ok del: bind_loop.simps)
qed

lemma bind_loop_aborts:
  "\<exists>kv\<in>set kvs. CHR '':'' \<notin> set kv \<Longrightarrow>
   fst (bind_loop e kvs bp w) = None \<and>
   last (logged (snd (bind_loop e kvs bp w))) =
     (SevWarning, BadBindFormat (hd (filter (\<lambda>kv. CHR '':'' \<notin> set kv) kvs))) \<and>
   length (logged w) < length (logged (snd (bind_loop e kvs bp w)))"
proof (induction kvs arbitrary: bp w)
  case Nil
  then show ?case by simp
next
  case (Cons kv kvs)
  show ?case
  proof (cases "CHR '':'' \<in> set kv")
    case False
    then show ?thesis by (simp add: bind_loop_bad del: bind_loop.simps)
  next
    case True
    with Cons.prems have rest: "\<exists>kv\<in>set kvs. CHR '':'' \<notin> set kv" by auto
    from True obtain bp' w' where step: "bind_loop e (kv # kvs) bp w = bind_loop e kvs bp' w'"
      and grow: "length (logged w) < length (logged w')"
      by (rule bind_loop_next)
    from Cons.IH [OF rest, of bp' w'] grow True show ?thesis
      unfolding step by auto
  qed
qed

lemma bind_loop_completes:
  "\<forall>kv\<in>set kvs. CHR '':'' \<in> set kv \<Longrightarrow>
   fst (bind_loop e kvs bp w) = Some (table_of (filepath_Abs e) kvs bp)"
proof (induction kvs arbitrary: bp w)
  case Nil
  show ?case by (simp add: table_of_def)
next
  case (Cons kv kvs)
  then have c: "CHR '':'' \<in> set kv" and rest: "\<forall>kv\<in>set kvs. CHR '':'' \<in> set kv" by auto
  show ?case
    using Cons.IH [OF rest] c
    by (simp add: bind_loop_ok table_of_def del: bind_loop.simps split: option.splits)
qed

lemma bind_loop_log:
  "\<forall>kv\<in>set kvs. CHR '':'' \<in> set kv \<Longrightarrow>
   logged (snd (bind_loop e kvs bp w)) = logged w @ bind_log (filepath_Abs e) kvs"
proof (induction kvs arbitrary: bp w)
  case Nil
  show ?case by (simp add: bind_log_def)
next
  case (Cons kv kvs)
  then have c: "CHR '':'' \<in> set kv" and rest: "\<forall>kv\<in>set kvs. CHR '':'' \<in> set kv" by auto
  show ?case
    using Cons.IH [OF rest] c
    by (simp add: bind_loop_ok bind_log_def del: bind_loop.simps split: option.splits)
qed

lemma table_of_skip:
  "resolve (local_part kv) = None \<Longrightarrow>
   table_of resolve (pre @ kv # post) t = table_of resolve (pre @ post) t"
  by (simp add: table_of_def)

lemma initRCloneBind_run:
  assumes "GOOS e = ''linux''"
    and "rclone.Binds (RCloneConfig w) = first # others"
    and "first \<noteq> ''UNSET''"
    and "Exists w (rclone.Config (RCloneConfig w))"
  shows "initRCloneBind e w =
           (case bind_loop e (first # others) [''/'' \<mapsto> OsFs]
                   (w\<lparr>rclone_ConfigPath := Some (rclone.Config (RCloneConfig w))\<rparr>) of
              (None, w2) \<Rightarrow> (Returned, w2)
            | (Some bindPoints, w2) \<Rightarrow> (Returned, w2\<lparr>OS := BindPathFs bindPoints\<rparr>))"
  using assms by (simp add: initRCloneBind_def Let_def del: bind_loop.simps)

lemma has_colon_not_sentinel: "CHR '':'' \<in> set kv \<Longrightarrow> kv \<noteq> ''UNSET''"
  by auto

lemma initRCloneBind_completes:
  assumes "GOOS e = ''linux''"
    and "Exists w (rclone.Config (RCloneConfig w))"
    and "rclone.Binds (RCloneConfig w) \<noteq> []"
    and "\<forall>kv\<in>set (rclone.Binds (RCloneConfig w)). CHR '':'' \<in> set kv"
  shows "fst (initRCloneBind e w) = Returned"
    and "OS (snd (initRCloneBind e w)) =
           BindPathFs (table_of (filepath_Abs e) (rclone.Binds (RCloneConfig w)) [''/'' \<mapsto> OsFs])"
    and "logged (snd (initRCloneBind e w)) =
           logged w @ bind_log (filepath_Abs e) (rclone.Binds (RCloneConfig w))"
proof -
  from assms(3) obtain first others where b: "rclone.Binds (RCloneConfig w) = first # others"
    by (cases "rclone.Binds (RCloneConfig w)") auto
  with assms(4) have "CHR '':'' \<in> set first" by simp
  then have n: "first \<noteq> ''UNSET''" by (rule has_colon_not_sentinel)
  let ?w1 = "w\<lparr>rclone_ConfigPath := Some (rclone.Config (RCloneConfig w))\<rparr>"
  let ?r = "bind_loop e (first # others) [''/'' \<mapsto> OsFs] ?w1"
  have run: "initRCloneBind e w =
      (case ?r of (None, w2) \<Rightarrow> (Returned, w2)
       | (Some bindPoints, w2) \<Rightarrow> (Returned, w2\<lparr>OS := BindPathFs bindPoints\<rparr>))"
    using assms(1) b n assms(2) by (rule initRCloneBind_run)
  have all: "\<forall>kv\<in>set (first # others). CHR '':'' \<in> set kv" using assms(4) b by simp
  have t: "fst ?r = Some (table_of (filepath_Abs e) (first # others) [''/'' \<mapsto> OsFs])"
    using all by (rule bind_loop_completes)
  have l: "logged (snd ?r) = logged ?w1 @ bind_log (filepath_Abs e) (first # others)"
    using all by (rule bind_loop_log)
  show "fst (initRCloneBind e w) = Returned"
    unfolding run by (cases ?r) (auto split: option.splits)
  show "OS (snd (initRCloneBind e w)) =
           BindPathFs (table_of (filepath_Abs e) (rclone.Binds (RCloneConfig w)) [''/'' \<mapsto> OsFs])"
    using t unfolding run b by (cases ?r) auto
  show "logged (snd (initRCloneBind e w)) =
           logged w @ bind_log (filepath_Abs e) (rclone.Binds (RCloneConfig w))"
    using t l unfolding run b by (cases ?r) auto
qed

lemma same_disk_emit [simp]: "same_disk w (emit s m w)"
  by (simp add: same_disk_def)

lemma same_disk_trans: "same_disk a b \<Longrightarrow> same_disk b c \<Longrightarrow> same_disk a c"
  by (simp add: same_disk_def)

lemma same_configs_trans: "same_configs a b \<Longrightarrow> same_configs b c \<Longrightarrow> same_configs a c"
  by (simp add: same_configs_def)

lemma mapSection_at_disk: "same_disk w (snd (mapSection_at e f n p w))"
  by (cases p) (simp_all add: same_disk_def split: prod.splits)

lemma map_sections_disk: "same_disk w (snd (map_sections e secs w))"
proof (induction secs arbitrary: w)
  case Nil
  show ?case by (simp add: same_disk_def)
next
  case (Cons s secs)
  obtain n p where s: "s = (n, p)" by (cases s)
  show ?case
  proof (cases "cfg w")
    case None
    then show ?thesis by (simp add: s same_disk_def)
  next
    case (Some f)
    obtain r w1 where m: "mapSection_at e f n p w = (r, w1)" by (cases "mapSection_at e f n p w")
    have d1: "same_disk w w1" using mapSection_at_disk [of w e f n p] by (simp add: m)
    show ?thesis
    proof (cases r)
      case None
      with Some m s same_disk_trans [OF d1 Cons.IH [of w1]] show ?thesis by simp
    next
      case (Some err)
      have "same_disk w (Panic (SectionError n err) w1)"
        by (rule same_disk_trans [OF d1]) simp
      with Some \<open>cfg w = Some f\<close> m s show ?thesis by simp
    qed
  qed
qed

lemma map_sections_outcome:
  "fst (map_sections e secs w) = Returned
   \<or> fst (map_sections e secs w) = Panicked NilPointer
   \<or> (\<exists>n err. fst (map_sections e secs w) = Panicked (Fatal (SectionError n err)))"
proof (induction secs arbitrary: w)
  case Nil
  show ?case by simp
next
  case (Cons s secs)
  obtain n p where s: "s = (n, p)" by (cases s)
  show ?case using Cons.IH
    by (auto simp add: s split: option.splits prod.splits)
qed

lemma reset_log_level_same:
  "same_disk w (reset_log_level w)" "same_configs w (reset_log_level w)"
  "OS (reset_log_level w) = OS w" "rclone_ConfigPath (reset_log_level w) = rclone_ConfigPath w"
  by (simp_all add: reset_log_level_def Log_def same_disk_def same_configs_def split: option.splits)

lemma initRCloneBind_same:
  "same_disk w (snd (initRCloneBind e w)) \<and> same_configs w (snd (initRCloneBind e w))"
proof (cases "GOOS e = ''linux''")
  case False
  then show ?thesis by (simp add: initRCloneBind_def same_disk_def same_configs_def)
next
  case linux: True
  show ?thesis
  proof (cases "rclone.Binds (RCloneConfig w)")
    case Nil
    with linux show ?thesis by (simp add: initRCloneBind_def same_disk_def same_configs_def)
  next
    case (Cons first others)
    show ?thesis
    proof (cases "first \<noteq> ''UNSET'' \<and> Exists w (rclone.Config (RCloneConfig w))")
      case False
      with linux Cons show ?thesis
        by (auto simp add: initRCloneBind_def same_disk_def same_configs_def)
    next
      case True
      let ?w1 = "w\<lparr>rclone_ConfigPath := Some (rclone.Config (RCloneConfig w))\<rparr>"
      let ?r = "bind_loop e (first # others) [''/'' \<mapsto> OsFs] ?w1"
      have run: "initRCloneBind e w =
          (case ?r of (None, w2) \<Rightarrow> (Returned, w2)
           | (Some bindPoints, w2) \<Rightarrow> (Returned, w2\<lparr>OS := BindPathFs bindPoints\<rparr>))"
        using linux Cons True by (intro initRCloneBind_run) simp_all
      obtain t w2 where r: "?r = (t, w2)" by (cases ?r)
      have "untouched ?w1 w2" using bind_loop_untouched [of ?w1 e "first # others" "[''/'' \<mapsto> OsFs]"]
        by (simp only: r snd_conv)
      then have k: "same_disk w w2 \<and> same_configs w w2"
        by (simp add: untouched_def same_disk_def same_configs_def)
      show ?thesis
      proof (cases t)
        case None
        with k show ?thesis by (simp add: run r)
      next
        case (Some bindPoints)
        with k show ?thesis by (simp add: run r same_disk_def same_configs_def)
      qed
    qed
  qed
qed

lemma initRCloneBind_outcome:
  "fst (initRCloneBind e w) = Returned \<or> fst (initRCloneBind e w) = Panicked IndexOutOfRange"
proof (cases "rclone.Binds (RCloneConfig w)")
  case Nil
  then show ?thesis by (simp add: initRCloneBind_def)
next
  case (Cons first others)
  obtain t w2 where "bind_loop e (first # others) [''/'' \<mapsto> OsFs]
      (w\<lparr>rclone_ConfigPath := Some (rclone.Config (RCloneConfig w))\<rparr>) = (t, w2)"
    by (cases "bind_loop e (first # others) [''/'' \<mapsto> OsFs]
      (w\<lparr>rclone_ConfigPath := Some (rclone.Config (RCloneConfig w))\<rparr>)")
  with Cons show ?thesis
    by (cases t) (simp_all add: initRCloneBind_def Let_def del: bind_loop.simps)
qed

lemma Init_split:
  "Init e path w =
     (case Init_create e path w of
        (Panicked p, w1) \<Rightarrow> (Panicked p, w1)
      | (Returned, w1) \<Rightarrow> Init_rest e path w1)"
  unfolding Init_def Init_rest_def by (rule refl)

lemma Init_rest_disk: "same_disk w (snd (Init_rest e path w))"
proof (cases "Load e path w")
  case (Inl err)
  then show ?thesis by (simp add: Init_rest_def same_disk_def)
next
  case (Inr f)
  let ?m = "map_sections e (range_order (sections_order e) sections) (w\<lparr>cfg := Some f\<rparr>)"
  obtain out w2 where m: "?m = (out, w2)" by (cases ?m)
  have "same_disk (w\<lparr>cfg := Some f\<rparr>) w2"
    using map_sections_disk [of "w\<lparr>cfg := Some f\<rparr>" e "range_order (sections_order e) sections"]
    by (simp add: m)
  then have d2: "same_disk w w2" by (simp add: same_disk_def)
  show ?thesis
  proof (cases out)
    case Returned
    have "same_disk w2 (snd (initRCloneBind e (reset_log_level w2)))"
      using reset_log_level_same(1) [of w2] initRCloneBind_same [of "reset_log_level w2" e]
      by (blast intro: same_disk_trans)
    with d2 have "same_disk w (snd (initRCloneBind e (reset_log_level w2)))"
      by (rule same_disk_trans)
    with Inr m Returned show ?thesis by (simp add: Init_rest_def)
  next
    case (Panicked p)
    with Inr m d2 show ?thesis by (simp add: Init_rest_def)
  qed
qed

lemma Init_rest_outcome:
  "fst (Init_rest e path w) \<noteq> Panicked (Fatal (CannotWrite err))"
proof (cases "Load e path w")
  case (Inl x)
  then show ?thesis by (simp add: Init_rest_def)
next
  case (Inr f)
  let ?m = "map_sections e (range_order (sections_order e) sections) (w\<lparr>cfg := Some f\<rparr>)"
  obtain out w2 where m: "?m = (out, w2)" by (cases ?m)
  show ?thesis
    using map_sections_outcome [of e "range_order (sections_order e) sections" "w\<lparr>cfg := Some f\<rparr>"]
      initRCloneBind_outcome [of e "reset_log_level w2"] Inr m
    by (cases out) (auto simp add: Init_rest_def)
qed

lemma Init_create_existing:
  "path \<noteq> [] \<Longrightarrow> Exists w path \<Longrightarrow> Init_create e path w = (Returned, w)"
  by (simp add: Init_create_def)

lemma CreatNestedFile_cases:
  "(\<exists>err w3. CreatNestedFile e path w = (Inl err, w3) \<and> open_files w3 = open_files w
              \<and> rand_used w3 = rand_used w)
   \<or> (\<exists>w3. CreatNestedFile e path w = (Inr path, w3) \<and> open_files w3 = path # open_files w
              \<and> rand_used w3 = rand_used w \<and> files w3 path = Some (File [])
              \<and> create_error e path = None)"
  by (auto simp add: CreatNestedFile_def Create_def MkdirAll_def Let_def split: option.splits)

lemma WriteString_open: "open_files (snd (WriteString e f s w)) = open_files w"
  by (simp add: WriteString_def append_file_def split: option.splits)

lemma Init_create_fresh:
  "path = [] \<or> \<not> Exists w path \<Longrightarrow>
   Init_create e path w =
     (case CreatNestedFile e path (snd (RandStringRunes e 64 (snd (RandStringRunes e 64 w)))) of
        (Inl err, w3) \<Rightarrow> (Panicked (Fatal (CannotCreate err)), Panic (CannotCreate err) w3)
      | (Inr f, w3) \<Rightarrow>
          (case WriteString e f
                  (Replace e
                     [(''{SessionSecret}'', fst (RandStringRunes e 64 w)),
                      (''{HashIDSalt}'', fst (RandStringRunes e 64 (snd (RandStringRunes e 64 w))))]
                     defaultConf) w3 of
             (Some err, w4) \<Rightarrow> (Panicked (Fatal (CannotWrite err)), Panic (CannotWrite err) w4)
           | (None, w4) \<Rightarrow> (Returned, Close f w4)))"
  by (simp add: Init_create_def Let_def split_beta)

lemma Init_create_handles:
  "(fst (Init_create e path w) = Panicked (Fatal (CannotWrite err)) \<longrightarrow>
      open_files (snd (Init_create e path w)) = path # open_files w)
   \<and> ((\<forall>err. fst (Init_create e path w) \<noteq> Panicked (Fatal (CannotWrite err))) \<longrightarrow>
      open_files (snd (Init_create e path w)) = open_files w)"
proof (cases "path = [] \<or> \<not> Exists w path")
  case False
  then show ?thesis by (simp add: Init_create_def)
next
  case True
  let ?w2 = "snd (RandStringRunes e 64 (snd (RandStringRunes e 64 w)))"
  let ?c = "Replace e
                     [(''{SessionSecret}'', fst (RandStringRunes e 64 w)),
                      (''{HashIDSalt}'', fst (RandStringRunes e 64 (snd (RandStringRunes e 64 w))))]
                     defaultConf"
  have o2: "open_files ?w2 = open_files w" by (simp add: RandStringRunes_def)
  from CreatNestedFile_cases [of e path ?w2] show ?thesis
  proof (elim disjE exE conjE)
    fix err' w3
    assume "CreatNestedFile e path ?w2 = (Inl err', w3)" "open_files w3 = open_files ?w2"
    with o2 show ?thesis unfolding Init_create_fresh [OF True] by simp
  next
    fix w3
    assume c: "CreatNestedFile e path ?w2 = (Inr path, w3)"
      and o3: "open_files w3 = path # open_files ?w2"
    obtain r w4 where wr: "WriteString e path ?c w3 = (r, w4)" by (cases "WriteString e path ?c w3")
    have o4: "open_files w4 = path # open_files w"
      using WriteString_open [of e path ?c w3] o3 o2 by (simp add: wr)
    show ?thesis
      unfolding Init_create_fresh [OF True] c using o4 wr
      by (cases r) (simp_all add: Close_def)
  qed
qed

lemma Init_write_fails:
  assumes "path \<noteq> []" and "\<not> Exists w path"
    and "mkdir_error e (filepath_Dir path) = None"
    and "create_error e path = None"
    and "write_error e path = Some (err, n)"
  shows "fst (Init e path w) = Panicked (Fatal (CannotWrite err))"
proof -
  let ?w2 = "snd (RandStringRunes e 64 (snd (RandStringRunes e 64 w)))"
  have fresh: "path = [] \<or> \<not> Exists w path" using assms(2) by simp
  have "\<exists>w3. CreatNestedFile e path ?w2 = (Inr path, w3)"
    using assms(1,3,4) by (simp add: CreatNestedFile_def Create_def MkdirAll_def Let_def)
  then obtain w3 where c: "CreatNestedFile e path ?w2 = (Inr path, w3)" ..
  have "fst (Init_create e path w) = Panicked (Fatal (CannotWrite err))"
    unfolding Init_create_fresh [OF fresh] c using assms(5) by (simp add: WriteString_def)
  then show ?thesis by (auto simp add: Init_split split: prod.splits outcome.splits)
qed

lemma Init_write_succeeds:
  assumes "write_error e path = None"
  shows "fst (Init e path w) \<noteq> Panicked (Fatal (CannotWrite err))"
proof -
  have "fst (Init_create e path w) \<noteq> Panicked (Fatal (CannotWrite err))"
  proof (cases "path = [] \<or> \<not> Exists w path")
    case False
    then show ?thesis by (simp add: Init_create_def)
  next
    case True
    let ?w2 = "snd (RandStringRunes e 64 (snd (RandStringRunes e 64 w)))"
    from CreatNestedFile_cases [of e path ?w2] show ?thesis
      unfolding Init_create_fresh [OF True] using assms
      by (auto simp add: WriteString_def)
  qed
  then show ?thesis using Init_rest_outcome [of e path _ err]
    by (auto simp add: Init_split split: prod.splits outcome.splits)
qed

lemma range_order_two: "range_order k [a, b] = [a, b] \<or> range_order k [a, b] = [b, a]"
proof -
  have "k mod 2 = 0 \<or> k mod 2 = 1" by presburger
  then show ?thesis
    by (auto simp add: range_order_def numeral_2_eq_2 Let_def)
qed

lemma Replace_skip:
  "CHR ''{'' \<notin> set xs \<Longrightarrow>
   strings_Replace (xs @ ys) (CHR ''{'' # rest) new = xs @ strings_Replace ys (CHR ''{'' # rest) new"
  by (induction xs) auto

lemma Replace_hit:
  "old \<noteq> [] \<Longrightarrow> strings_Replace (old @ ys) old new = new @ strings_Replace ys old new"
  by (cases old) simp_all

lemma Replace_none:
  "CHR ''{'' \<notin> set xs \<Longrightarrow> strings_Replace xs (CHR ''{'' # rest) new = xs"
  using Replace_skip [of xs "[]" rest new] by simp

lemma Replace_session:
  assumes "CHR ''{'' \<notin> set a" and "CHR ''{'' \<notin> set b"
  shows "strings_Replace (a @ ''{SessionSecret}'' @ b) ''{SessionSecret}'' s = a @ s @ b"
proof -
  have "strings_Replace (a @ ''{SessionSecret}'' @ b) ''{SessionSecret}'' s =
        a @ strings_Replace (''{SessionSecret}'' @ b) ''{SessionSecret}'' s"
    using Replace_skip [OF assms(1), of "''{SessionSecret}'' @ b" "''SessionSecret}''" s] by simp
  also have "strings_Replace (''{SessionSecret}'' @ b) ''{SessionSecret}'' s =
             s @ strings_Replace b ''{SessionSecret}'' s"
    by (rule Replace_hit) simp
  also have "strings_Replace b ''{SessionSecret}'' s = b"
    using Replace_none [OF assms(2), of "''SessionSecret}''" s] by simp
  finally show ?thesis .
qed

lemma Replace_salt:
  assumes "CHR ''{'' \<notin> set a" and "CHR ''{'' \<notin> set b"
  shows "strings_Replace (a @ ''{HashIDSalt}'' @ b) ''{HashIDSalt}'' s = a @ s @ b"
proof -
  have "strings_Replace (a @ ''{HashIDSalt}'' @ b) ''{HashIDSalt}'' s =
        a @ strings_Replace (''{HashIDSalt}'' @ b) ''{HashIDSalt}'' s"
    using Replace_skip [OF assms(1), of "''{HashIDSalt}'' @ b" "''HashIDSalt}''" s] by simp
  also have "strings_Replace (''{HashIDSalt}'' @ b) ''{HashIDSalt}'' s =
             s @ strings_Replace b ''{HashIDSalt}'' s"
    by (rule Replace_hit) simp
  also have "strings_Replace b ''{HashIDSalt}'' s = b"
    using Replace_none [OF assms(2), of "''HashIDSalt}''" s] by simp
  finally show ?thesis .
qed

lemma session_first:
  "strings_Replace defaultConf ''{SessionSecret}'' s1 =
     ''[System]\<newline>Mode = master\<newline>Listen = :5212\<newline>SessionSecret = '' @ s1 @
     ''\<newline>HashIDSalt = {HashIDSalt}\<newline>''"
proof -
  let ?a = "''[System]\<newline>Mode = master\<newline>Listen = :5212\<newline>SessionSecret = ''"
  have d: "defaultConf = ?a @ ''{SessionSecret}'' @ ''\<newline>HashIDSalt = {HashIDSalt}\<newline>''"
    by (simp add: defaultConf_def)
  have "strings_Replace (?a @ ''{SessionSecret}'' @ ''\<newline>HashIDSalt = {HashIDSalt}\<newline>'')
          ''{SessionSecret}'' s1 =
        ?a @ strings_Replace (''{SessionSecret}'' @ ''\<newline>HashIDSalt = {HashIDSalt}\<newline>'')
          ''{SessionSecret}'' s1"
    using Replace_skip [of ?a "''{SessionSecret}'' @ ''\<newline>HashIDSalt = {HashIDSalt}\<newline>''"
        "''SessionSecret}''" s1]
    by simp
  also have "strings_Replace (''{SessionSecret}'' @ ''\<newline>HashIDSalt = {HashIDSalt}\<newline>'')
          ''{SessionSecret}'' s1 =
       s1 @ strings_Replace ''\<newline>HashIDSalt = {HashIDSalt}\<newline>'' ''{SessionSecret}'' s1"
    by (rule Replace_hit) simp
  also have "strings_Replace ''\<newline>HashIDSalt = {HashIDSalt}\<newline>'' ''{SessionSecret}'' s1 =
       ''\<newline>HashIDSalt = {HashIDSalt}\<newline>''"
    by simp
  finally show ?thesis unfolding d by simp
qed

lemma salt_first:
  "strings_Replace defaultConf ''{HashIDSalt}'' s2 =
     ''[System]\<newline>Mode = master\<newline>Listen = :5212\<newline>SessionSecret = {SessionSecret}\<newline>HashIDSalt = ''
       @ s2 @ ''\<newline>''"
proof -
  let ?a = "''[System]\<newline>Mode = master\<newline>Listen = :5212\<newline>SessionSecret = ''"
  let ?m = "''SessionSecret}\<newline>HashIDSalt = ''"
  have d: "defaultConf = ?a @ CHR ''{'' # ?m @ ''{HashIDSalt}'' @ ''\<newline>''"
    by (simp add: defaultConf_def)
  have "strings_Replace (?a @ CHR ''{'' # ?m @ ''{HashIDSalt}'' @ ''\<newline>'') ''{HashIDSalt}'' s2 =
        ?a @ strings_Replace (CHR ''{'' # ?m @ ''{HashIDSalt}'' @ ''\<newline>'') ''{HashIDSalt}'' s2"
    using Replace_skip [of ?a "CHR ''{'' # ?m @ ''{HashIDSalt}'' @ ''\<newline>''" "''HashIDSalt}''" s2]
    by simp
  also have "strings_Replace (CHR ''{'' # ?m @ ''{HashIDSalt}'' @ ''\<newline>'') ''{HashIDSalt}'' s2 =
        CHR ''{'' # strings_Replace (?m @ ''{HashIDSalt}'' @ ''\<newline>'') ''{HashIDSalt}'' s2"
    by simp
  also have "strings_Replace (?m @ ''{HashIDSalt}'' @ ''\<newline>'') ''{HashIDSalt}'' s2 =
        ?m @ s2 @ ''\<newline>''"
    by (rule Replace_salt) simp_all
  finally show ?thesis unfolding d by simp
qed

lemma Replace_secrets:
  assumes "CHR ''{'' \<notin> set s1" and "CHR ''{'' \<notin> set s2"
  shows "Replace e [(''{SessionSecret}'', s1), (''{HashIDSalt}'', s2)] defaultConf = conf_with s1 s2"
proof -
  let ?a = "''[System]\<newline>Mode = master\<newline>Listen = :5212\<newline>SessionSecret = ''"
  have ab: "strings_Replace (strings_Replace defaultConf ''{SessionSecret}'' s1) ''{HashIDSalt}'' s2
              = conf_with s1 s2"
  proof -
    have "strings_Replace ((?a @ s1 @ ''\<newline>HashIDSalt = '') @ ''{HashIDSalt}'' @ ''\<newline>'')
            ''{HashIDSalt}'' s2 = (?a @ s1 @ ''\<newline>HashIDSalt = '') @ s2 @ ''\<newline>''"
      by (rule Replace_salt) (use assms(1) in simp_all)
    then show ?thesis unfolding session_first conf_with_def by simp
  qed
  have ba: "strings_Replace (strings_Replace defaultConf ''{HashIDSalt}'' s2) ''{SessionSecret}'' s1
              = conf_with s1 s2"
  proof -
    have "strings_Replace (?a @ ''{SessionSecret}'' @ (''\<newline>HashIDSalt = '' @ s2 @ ''\<newline>''))
            ''{SessionSecret}'' s1 = ?a @ s1 @ (''\<newline>HashIDSalt = '' @ s2 @ ''\<newline>'')"
      by (rule Replace_session) (use assms(2) in simp_all)
    then show ?thesis unfolding salt_first conf_with_def by simp
  qed
  from range_order_two [of "replace_order e" "(''{SessionSecret}'', s1)" "(''{HashIDSalt}'', s2)"]
  show ?thesis
  proof
    assume "range_order (replace_order e) [(''{SessionSecret}'', s1), (''{HashIDSalt}'', s2)] =
              [(''{SessionSecret}'', s1), (''{HashIDSalt}'', s2)]"
    then show ?thesis using ab by (simp add: Replace_def)
  next
    assume "range_order (replace_order e) [(''{SessionSecret}'', s1), (''{HashIDSalt}'', s2)] =
              [(''{HashIDSalt}'', s2), (''{SessionSecret}'', s1)]"
    then show ?thesis using ba by (simp add: Replace_def)
  qed
qed

lemma RandStringRunes_facts:
  "length (fst (RandStringRunes e n w)) = n"
  "set (fst (RandStringRunes e n w)) \<subseteq> set letterRunes"
  "rand_used (snd (RandStringRunes e n w)) = rand_used w + n"
  "files (snd (RandStringRunes e n w)) = files w"
  "open_files (snd (RandStringRunes e n w)) = open_files w"
proof -
  have "length letterRunes = 62" by (simp add: letterRunes_def)
  then have "letterRunes ! (x mod length letterRunes) \<in> set letterRunes" for x
    by (intro nth_mem) simp
  then show "set (fst (RandStringRunes e n w)) \<subseteq> set letterRunes"
    by (auto simp add: RandStringRunes_def)
qed (simp_all add: RandStringRunes_def)

lemma no_brace: "CHR ''{'' \<notin> set letterRunes"
  by (simp add: letterRunes_def)


lemma CreatNestedFile_ok:
  assumes "Exists w (filepath_Dir path) \<or> mkdir_error e (filepath_Dir path) = None"
    and "create_error e path = None"
    and "path \<noteq> []"
  shows "\<exists>w3. CreatNestedFile e path w = (Inr path, w3)
              \<and> files w3 path = Some (File [])
              \<and> open_files w3 = path # open_files w
              \<and> rand_used w3 = rand_used w
              \<and> Exists w3 (filepath_Dir path)
              \<and> (\<not> Exists w (filepath_Dir path) \<longrightarrow>
                    (\<forall>d\<in>set (dir_chain (filepath_Dir path)). Exists w3 d))"
proof (cases "Exists w (filepath_Dir path)")
  case True
  let ?w3 = "w\<lparr>files := (files w)(path \<mapsto> File []), open_files := path # open_files w\<rparr>"
  have "CreatNestedFile e path w = Create e path w"
    using True by (simp add: CreatNestedFile_def Let_def)
  also have "Create e path w = (Inr path, ?w3)" using assms(2,3) by (simp add: Create_def)
  finally have c: "CreatNestedFile e path w = (Inr path, ?w3)" .
  have "Exists ?w3 (filepath_Dir path)" using True by (simp add: Exists_def)
  with c True show ?thesis by simp
next
  case False
  with assms(1) have m: "mkdir_error e (filepath_Dir path) = None" by simp
  let ?w1 = "w\<lparr>files := (\<lambda>p. if p \<in> set (dir_chain (filepath_Dir path)) \<and> files w p = None
                                  then Some Dir else files w p)\<rparr>"
  let ?w3 = "?w1\<lparr>files := (files ?w1)(path \<mapsto> File []), open_files := path # open_files ?w1\<rparr>"
  have mk: "MkdirAll e (filepath_Dir path) w = (None, ?w1)" using m by (simp add: MkdirAll_def)
  have "CreatNestedFile e path w = Create e path ?w1"
    using False by (simp add: CreatNestedFile_def Let_def mk)
  also have "Create e path ?w1 = (Inr path, ?w3)" using assms(2,3) by (simp add: Create_def)
  finally have c: "CreatNestedFile e path w = (Inr path, ?w3)" .
  have all: "\<forall>d\<in>set (dir_chain (filepath_Dir path)). Exists ?w3 d"
    by (auto simp add: Exists_def)
  have "filepath_Dir path \<in> set (dir_chain (filepath_Dir path))"
    by (simp add: dir_chain_def)
  with all have "Exists ?w3 (filepath_Dir path)" by blast
  with c all show ?thesis by simp
qed

lemma Init_create_writes:
  assumes "path \<noteq> [] \<and> \<not> Exists w path"
    and "Exists w (filepath_Dir path) \<or> mkdir_error e (filepath_Dir path) = None"
    and "create_error e path = None"
    and "write_error e path = None"
  shows "\<exists>w'. Init_create e path w = (Returned, w')
              \<and> files w' path = Some (File (conf_with (session_secret e w) (hashid_salt e w)))
              \<and> rand_used w' = rand_used w + 128
              \<and> Exists w' (filepath_Dir path)
              \<and> (\<not> Exists w (filepath_Dir path) \<longrightarrow>
                    (\<forall>d\<in>set (dir_chain (filepath_Dir path)). Exists w' d))"
proof -
  let ?w2 = "snd (RandStringRunes e 64 (snd (RandStringRunes e 64 w)))"
  have f2: "files ?w2 = files w" and r2: "rand_used ?w2 = rand_used w + 128"
    by (simp_all add: RandStringRunes_facts)
  have x2: "Exists ?w2 p = Exists w p" for p by (simp add: Exists_def f2)
  have b1: "CHR ''{'' \<notin> set (session_secret e w)"
    using RandStringRunes_facts(2) [of e 64 w] no_brace unfolding session_secret_def by blast
  have b2: "CHR ''{'' \<notin> set (hashid_salt e w)"
    using RandStringRunes_facts(2) [of e 64 "snd (RandStringRunes e 64 w)"] no_brace
    unfolding hashid_salt_def by blast
  have content: "Replace e
                     [(''{SessionSecret}'', fst (RandStringRunes e 64 w)),
                      (''{HashIDSalt}'', fst (RandStringRunes e 64 (snd (RandStringRunes e 64 w))))]
                     defaultConf = conf_with (session_secret e w) (hashid_salt e w)"
    using Replace_secrets [OF b1 b2, of e] by (simp add: session_secret_def hashid_salt_def)
  have fresh: "path = [] \<or> \<not> Exists w path" using assms(1) by simp
  from CreatNestedFile_ok [of ?w2 path e] assms(1,2,3)
  obtain w3 where c: "CreatNestedFile e path ?w2 = (Inr path, w3)"
    and f3: "files w3 path = Some (File [])"
    and r3: "rand_used w3 = rand_used ?w2"
    and x3: "Exists w3 (filepath_Dir path)"
    and ch: "\<not> Exists w (filepath_Dir path) \<longrightarrow> (\<forall>d\<in>set (dir_chain (filepath_Dir path)). Exists w3 d)"
    unfolding x2 by blast
  let ?w4 = "append_file path (conf_with (session_secret e w) (hashid_salt e w)) w3"
  have wr: "WriteString e path (conf_with (session_secret e w) (hashid_salt e w)) w3 = (None, ?w4)"
    using assms(4) by (simp add: WriteString_def)
  have ic: "Init_create e path w = (Returned, Close path ?w4)"
    unfolding Init_create_fresh [OF fresh] c content by (simp add: wr)
  have keep: "Exists (Close path ?w4) d" if "Exists w3 d" for d
    using that by (simp add: Exists_def Close_def append_file_def)
  have "files (Close path ?w4) path = Some (File (conf_with (session_secret e w) (hashid_salt e w)))"
    by (simp add: Close_def append_file_def f3)
  moreover have "rand_used (Close path ?w4) = rand_used w + 128"
    by (simp add: Close_def append_file_def r3 r2)
  ultimately show ?thesis using ic keep x3 ch by blast
qed

lemma Init_writes_default:
  assumes "path \<noteq> [] \<and> \<not> Exists w path"
    and "Exists w (filepath_Dir path) \<or> mkdir_error e (filepath_Dir path) = None"
    and "create_error e path = None"
    and "write_error e path = None"
  shows "files (snd (Init e path w)) path =
           Some (File (''[System]\<newline>Mode = master\<newline>Listen = :5212\<newline>SessionSecret = ''
                        @ session_secret e w @ ''\<newline>HashIDSalt = '' @ hashid_salt e w
                        @ ''\<newline>''))
       \<and> length (session_secret e w) = 64 \<and> length (hashid_salt e w) = 64
       \<and> set (session_secret e w) \<subseteq> set letterRunes
       \<and> set (hashid_salt e w) \<subseteq> set letterRunes
       \<and> session_secret e w =
           map (\<lambda>i. letterRunes ! (rand_Intn e (rand_used w + i) mod length letterRunes)) [0..<64]
       \<and> hashid_salt e w =
           map (\<lambda>i. letterRunes ! (rand_Intn e (rand_used w + 64 + i) mod length letterRunes)) [0..<64]
       \<and> rand_used (snd (Init e path w)) = rand_used w + 128
       \<and> Exists (snd (Init e path w)) (filepath_Dir path)
       \<and> (\<not> Exists w (filepath_Dir path) \<longrightarrow>
            (\<forall>d\<in>set (dir_chain (filepath_Dir path)). Exists (snd (Init e path w)) d))"
proof -
  from Init_create_writes [OF assms]
  obtain w' where ic: "Init_create e path w = (Returned, w')"
    and f: "files w' path = Some (File (conf_with (session_secret e w) (hashid_salt e w)))"
    and r: "rand_used w' = rand_used w + 128"
    and x: "Exists w' (filepath_Dir path)"
    and ch: "\<not> Exists w (filepath_Dir path) \<longrightarrow> (\<forall>d\<in>set (dir_chain (filepath_Dir path)). Exists w' d)"
    by blast
  have i: "Init e path w = Init_rest e path w'" by (simp add: Init_split ic)
  have d: "same_disk w' (snd (Init e path w))" unfolding i by (rule Init_rest_disk)
  then have same: "files (snd (Init e path w)) = files w'"
    and rs: "rand_used (snd (Init e path w)) = rand_used w'"
    by (simp_all add: same_disk_def)
  have ex: "Exists (snd (Init e path w)) p = Exists w' p" for p by (simp add: Exists_def same)
  have s1: "session_secret e w =
           map (\<lambda>i. letterRunes ! (rand_Intn e (rand_used w + i) mod length letterRunes)) [0..<64]"
    by (simp add: session_secret_def RandStringRunes_def)
  have s2: "hashid_salt e w =
           map (\<lambda>i. letterRunes ! (rand_Intn e (rand_used w + 64 + i) mod length letterRunes)) [0..<64]"
    by (simp add: hashid_salt_def RandStringRunes_def)
  have l: "length (session_secret e w) = 64" "length (hashid_salt e w) = 64"
    "set (session_secret e w) \<subseteq> set letterRunes" "set (hashid_salt e w) \<subseteq> set letterRunes"
    unfolding session_secret_def hashid_salt_def by (rule RandStringRunes_facts)+
  have c: "files (snd (Init e path w)) path =
           Some (File (''[System]\<newline>Mode = master\<newline>Listen = :5212\<newline>SessionSecret = ''
                        @ session_secret e w @ ''\<newline>HashIDSalt = '' @ hashid_salt e w
                        @ ''\<newline>''))"
    unfolding same f conf_with_def by simp
  show ?thesis
    apply (intro conjI)
    apply (rule c)
    apply (rule l(1))
    apply (rule l(2))
    apply (rule l(3))
    apply (rule l(4))
    apply (rule s1)
    apply (rule s2)
    apply (simp add: rs r)
    apply (simp add: ex x)
    apply (simp add: ex ch)
    done
qed

lemma CreatNestedFile_empty:
  "\<exists>err w3. CreatNestedFile e [] w = (Inl err, w3) \<and> files w3 [] = files w []
             \<and> open_files w3 = open_files w
             \<and> (Exists w ''.'' \<or> mkdir_error e ''.'' = None \<longrightarrow>
                  err = ''no such file or directory'')"
  by (auto simp add: CreatNestedFile_def Create_def MkdirAll_def Let_def filepath_Dir_def
        dir_chain_def Exists_def split: option.splits)

lemma Init_empty_path:
  "\<exists>err. fst (Init e [] w) = Panicked (Fatal (CannotCreate err))
         \<and> (Exists w ''.'' \<or> mkdir_error e ''.'' = None \<longrightarrow>
              err = ''no such file or directory'')"
  "files (snd (Init e [] w)) [] = files w []"
  "open_files (snd (Init e [] w)) = open_files w"
proof -
  let ?w2 = "snd (RandStringRunes e 64 (snd (RandStringRunes e 64 w)))"
  have f2: "files ?w2 = files w" and o2: "open_files ?w2 = open_files w"
    by (simp_all add: RandStringRunes_facts)
  have x2: "Exists ?w2 ''.'' = Exists w ''.''" by (simp add: Exists_def f2)
  have "\<exists>err w3. CreatNestedFile e [] ?w2 = (Inl err, w3) \<and> files w3 [] = files w []
             \<and> open_files w3 = open_files w
             \<and> (Exists w ''.'' \<or> mkdir_error e ''.'' = None \<longrightarrow>
                  err = ''no such file or directory'')"
    using CreatNestedFile_empty [of e ?w2] unfolding f2 o2 x2 .
  then obtain err where "\<exists>w3. CreatNestedFile e [] ?w2 = (Inl err, w3) \<and> files w3 [] = files w []
             \<and> open_files w3 = open_files w
             \<and> (Exists w ''.'' \<or> mkdir_error e ''.'' = None \<longrightarrow>
                  err = ''no such file or directory'')" ..
  then obtain w3 where all: "CreatNestedFile e [] ?w2 = (Inl err, w3) \<and> files w3 [] = files w []
             \<and> open_files w3 = open_files w
             \<and> (Exists w ''.'' \<or> mkdir_error e ''.'' = None \<longrightarrow>
                  err = ''no such file or directory'')" ..
  note c = all [THEN conjunct1]
    and f3 = all [THEN conjunct2, THEN conjunct1]
    and o3 = all [THEN conjunct2, THEN conjunct2, THEN conjunct1]
    and m = all [THEN conjunct2, THEN conjunct2, THEN conjunct2]
  have ic: "Init_create e [] w =
              (Panicked (Fatal (CannotCreate err)), Panic (CannotCreate err) w3)"
    using Init_create_fresh [of "[]" w e] by (simp add: c)
  then have i: "Init e [] w = (Panicked (Fatal (CannotCreate err)), Panic (CannotCreate err) w3)"
    by (simp add: Init_split)
  show "\<exists>err. fst (Init e [] w) = Panicked (Fatal (CannotCreate err))
         \<and> (Exists w ''.'' \<or> mkdir_error e ''.'' = None \<longrightarrow>
              err = ''no such file or directory'')"
    using m by (simp add: i)
  show "files (snd (Init e [] w)) [] = files w []" by (simp add: i f3)
  show "open_files (snd (Init e [] w)) = open_files w" by (simp add: i o3)
qed

lemma pick_order_set: "n = length xs \<Longrightarrow> set (pick_order n k xs) = set xs"
proof (induction n arbitrary: k xs)
  case 0
  then show ?case by simp
next
  case (Suc n)
  then have ne: "xs \<noteq> []" by auto
  let ?i = "k mod length xs"
  have i: "?i < length xs" using ne by simp
  have len: "n = length (take ?i xs @ drop (Suc ?i) xs)" using Suc.prems i by simp
  have "set xs = set (take ?i xs @ xs ! ?i # drop (Suc ?i) xs)"
    using id_take_nth_drop [OF i] by simp
  then have "set xs = insert (xs ! ?i) (set (take ?i xs @ drop (Suc ?i) xs))" by simp
  with Suc.IH [OF len] ne show ?case by (simp add: Let_def)
qed

lemma range_order_set: "set (range_order k xs) = set xs"
  by (simp add: range_order_def pick_order_set)

lemma mapSection_at_validates:
  "mapSection_at e f n p w = (None, w1) \<Longrightarrow> validate_at p w1 = None"
  by (cases p) (auto simp add: mapSection_def split: prod.splits option.splits)

lemma mapSection_at_other:
  "p \<noteq> q \<Longrightarrow> validate_at q (snd (mapSection_at e f n p w)) = validate_at q w"
  by (cases p; cases q) (simp_all add: split_beta)

lemma map_sections_other:
  "q \<notin> snd ` set secs \<Longrightarrow> map_sections e secs w = (Returned, w') \<Longrightarrow>
   validate_at q w' = validate_at q w"
proof (induction secs arbitrary: w)
  case Nil
  then show ?case by simp
next
  case (Cons s secs)
  obtain n p where s: "s = (n, p)" by (cases s)
  from Cons.prems(1) s have pq: "p \<noteq> q" and rest: "q \<notin> snd ` set secs" by auto
  from Cons.prems(2) s obtain f w1 where c: "cfg w = Some f"
    and m: "mapSection_at e f n p w = (None, w1)"
    and r: "map_sections e secs w1 = (Returned, w')"
    by (auto split: option.splits prod.splits)
  have "validate_at q w1 = validate_at q w"
    using mapSection_at_other [OF pq, of e f n w] by (simp add: m)
  with Cons.IH [OF rest r] show ?case by simp
qed

lemma map_sections_validates:
  "map_sections e secs w = (Returned, w') \<Longrightarrow> q \<in> snd ` set secs \<Longrightarrow> validate_at q w' = None"
proof (induction secs arbitrary: w)
  case Nil
  then show ?case by simp
next
  case (Cons s secs)
  obtain n p where s: "s = (n, p)" by (cases s)
  from Cons.prems(1) s obtain f w1 where c: "cfg w = Some f"
    and m: "mapSection_at e f n p w = (None, w1)"
    and r: "map_sections e secs w1 = (Returned, w')"
    by (auto split: option.splits prod.splits)
  show ?case
  proof (cases "q \<in> snd ` set secs")
    case True
    with Cons.IH [OF r] show ?thesis by simp
  next
    case False
    with Cons.prems(2) s have "q = p" by auto
    with map_sections_other [OF False r] mapSection_at_validates [OF m] show ?thesis by simp
  qed
qed

lemma sections_cover: "q \<in> snd ` set sections"
  by (cases q) (simp_all add: sections_def)

lemma same_configs_validate: "same_configs w w' \<Longrightarrow> validate_at q w' = validate_at q w"
  by (cases q) (simp_all add: same_configs_def)

lemma Init_rest_validates:
  assumes "Init_rest e path w = (Returned, w')"
  shows "validate_at q w' = None"
proof -
  from assms obtain f where l: "Load e path w = Inr f"
    by (cases "Load e path w") (simp_all add: Init_rest_def)
  let ?m = "map_sections e (range_order (sections_order e) sections) (w\<lparr>cfg := Some f\<rparr>)"
  obtain out w2 where m: "?m = (out, w2)" by (cases ?m)
  from assms l m have out: "out = Returned"
    by (cases out) (simp_all add: Init_rest_def)
  from assms l m out have fin: "initRCloneBind e (reset_log_level w2) = (Returned, w')"
    by (simp add: Init_rest_def)
  have "q \<in> snd ` set (range_order (sections_order e) sections)"
    by (simp add: range_order_set sections_cover)
  with m out have v2: "validate_at q w2 = None" by (intro map_sections_validates) simp_all
  have "same_configs w2 (reset_log_level w2)" by (rule reset_log_level_same)
  moreover have "same_configs (reset_log_level w2) w'"
    using initRCloneBind_same [of "reset_log_level w2" e] by (simp add: fin)
  ultimately have "same_configs w2 w'" by (rule same_configs_trans)
  with v2 show ?thesis by (simp add: same_configs_validate)
qed

lemma Init_validates:
  assumes "Init e path w = (Returned, w')"
  shows "validate_at q w' = None"
proof -
  obtain out w1 where c: "Init_create e path w = (out, w1)" by (cases "Init_create e path w")
  with assms have "Init_rest e path w1 = (Returned, w')"
    by (cases out) (simp_all add: Init_split)
  then show ?thesis by (rule Init_rest_validates)
qed

lemma range_accepts: "validate_field [[Gte lo], [Lte hi]] (VInt v) \<longleftrightarrow> lo \<le> v \<and> v \<le> hi"
  by simp

lemma captcha_valid:
  "validate_Struct (fields_captcha c) = None \<longleftrightarrow>
     0 \<le> captcha.Height c \<and> 0 \<le> captcha.Width c \<and>
     0 \<le> captcha.Mode c \<and> captcha.Mode c \<le> 3 \<and>
     0 \<le> captcha.ComplexOfNoiseText c \<and> captcha.ComplexOfNoiseText c \<le> 2 \<and>
     0 \<le> captcha.ComplexOfNoiseDot c \<and> captcha.ComplexOfNoiseDot c \<le> 2 \<and>
     0 < captcha.CaptchaLen c"
  by (auto simp add: fields_captcha_def)

lemma system_valid:
  "validate_Struct (fields_system c) = None \<longleftrightarrow>
     (system.Mode c = ''master'' \<or> system.Mode c = ''slave'') \<and> system.Listen c \<noteq> []"
  by (simp add: fields_system_def)

lemma ssl_valid: "validate_Struct (fields_ssl c) = None \<longleftrightarrow> ssl.Listen c \<noteq> []"
  by (simp add: fields_ssl_def)

lemma slave_valid:
  "validate_Struct (fields_slave c) = None \<longleftrightarrow>
     (slave.Secret c = [] \<or> 64 \<le> length (slave.Secret c)) \<and>
     (slave.CallbackTimeout c = 0 \<or> 1 \<le> slave.CallbackTimeout c) \<and>
     (slave.SignatureTTL c = 0 \<or> 1 \<le> slave.SignatureTTL c)"
  by (auto simp add: fields_slave_def)

lemma thumb_valid: "validate_Struct (fields_thumb c) = None \<longleftrightarrow> thumb.FileSuffix c \<noteq> []"
  by (auto simp add: fields_thumb_def Suc_le_eq)


lemma captcha_Mode_range:
  assumes "validate_Struct (fields_captcha c) = None"
  shows "validate_Struct (fields_captcha (c\<lparr>captcha.Mode := v\<rparr>)) = None \<longleftrightarrow> 0 \<le> v \<and> v \<le> 3"
  using assms unfolding captcha_valid by simp

lemma mapSection_at_idle:
  assumes "MapTo_database e = (\<lambda>s c. (None, c))" and "MapTo_system e = (\<lambda>s c. (None, c))"
    and "MapTo_ssl e = (\<lambda>s c. (None, c))" and "MapTo_unix e = (\<lambda>s c. (None, c))"
    and "MapTo_slave e = (\<lambda>s c. (None, c))" and "MapTo_captcha e = (\<lambda>s c. (None, c))"
    and "MapTo_redis e = (\<lambda>s c. (None, c))" and "MapTo_thumb e = (\<lambda>s c. (None, c))"
    and "MapTo_cors e = (\<lambda>s c. (None, c))" and "MapTo_rclone e = (\<lambda>s c. (None, c))"
  shows "mapSection_at e f n p w = (validate_at p w, w)"
  using assms by (cases p) (simp_all add: mapSection_def)

lemma map_sections_idle:
  assumes "\<And>f n p v. mapSection_at e f n p v = (validate_at p v, v)"
    and "cfg w = Some f"
    and "\<forall>p. validate_at p w = None"
  shows "map_sections e secs w = (Returned, w)"
proof (induction secs)
  case Nil
  show ?case by simp
next
  case (Cons s secs)
  obtain n p where s: "s = (n, p)" by (cases s)
  show ?case using Cons.IH assms(2,3) by (simp add: s assms(1))
qed

lemma start_world_valid: "validate_at p (start_world binds) = None"
  by (cases p)
    (simp_all add: start_world_def fields_database_def fields_system_def fields_ssl_def
       fields_unix_def fields_captcha_def fields_redis_def fields_thumb_def fields_cors_def
       fields_rclone_def fields_slave_def)

lemma start_Init_returns:
  "fst (Init linux_env ''/etc/cloudreve/conf.ini'' (start_world [''UNSET''])) = Returned"
proof -
  let ?p = "''/etc/cloudreve/conf.ini''"
  let ?w = "start_world [''UNSET'']"
  let ?w1 = "?w\<lparr>cfg := Some (\<lambda>n k. None)\<rparr>"
  have x: "Exists ?w ?p" by (simp add: Exists_def start_world_def)
  have c: "Init_create linux_env ?p ?w = (Returned, ?w)"
    by (rule Init_create_existing) (simp_all add: x)
  have l: "Load linux_env ?p ?w = Inr (\<lambda>n k. None)"
    by (simp add: Load_def start_world_def linux_env_def)
  have idle: "mapSection_at linux_env f n p v = (validate_at p v, v)" for f n p v
    by (rule mapSection_at_idle) (simp_all add: linux_env_def)
  have sc: "same_configs ?w ?w1" by (simp add: same_configs_def)
  have v: "\<forall>p. validate_at p ?w1 = None"
    using same_configs_validate [OF sc] start_world_valid by simp
  have m: "map_sections linux_env (range_order (sections_order linux_env) sections) ?w1
             = (Returned, ?w1)"
    using idle _ v by (rule map_sections_idle) simp
  have "same_configs ?w (reset_log_level ?w1)"
    using sc reset_log_level_same(2) by (rule same_configs_trans)
  then have "RCloneConfig (reset_log_level ?w1) = RCloneConfig ?w" by (simp add: same_configs_def)
  then have b: "rclone.Binds (RCloneConfig (reset_log_level ?w1)) = [''UNSET'']"
    by (simp add: start_world_def)
  have "fst (initRCloneBind linux_env (reset_log_level ?w1)) = Returned"
    by (simp add: initRCloneBind_def b)
  then show ?thesis by (simp add: Init_split c Init_rest_def l m)
qed

section \<open>The remote-bind step\<close>

text \<open>
  Claim C4.  When the first entry of the configured bind list is the literal
  \<^verbatim>\<open>UNSET\<close>, the remote-bind step returns without registering a remote-backend
  config path and without installing a composite filesystem: the registered path and
  the process-wide filesystem are what they were.  On Linux the step changes nothing
  at all.
\<close>

theorem sentinel_skips_bind_step:
  assumes "rclone.Binds (RCloneConfig w) = ''UNSET'' # others"
  shows "fst (initRCloneBind e w) = Returned
       \<and> rclone_ConfigPath (snd (initRCloneBind e w)) = rclone_ConfigPath w
       \<and> OS (snd (initRCloneBind e w)) = OS w
       \<and> (GOOS e = ''linux'' \<longrightarrow> snd (initRCloneBind e w) = w)"
  using assms by (simp add: initRCloneBind_def)

theorem sentinel_skips_bind_step_witness:
  "rclone.Binds (RCloneConfig (start_world [''UNSET'', ''/data:remote:mybucket''])) =
     ''UNSET'' # [''/data:remote:mybucket'']
   \<and> fst (initRCloneBind linux_env (start_world [''UNSET'', ''/data:remote:mybucket''])) = Returned
   \<and> rclone_ConfigPath (snd (initRCloneBind linux_env (start_world [''UNSET'', ''/data:remote:mybucket''])))
       = None
   \<and> OS (snd (initRCloneBind linux_env (start_world [''UNSET'', ''/data:remote:mybucket'']))) = OsFs
   \<and> GOOS linux_env = ''linux''
   \<and> snd (initRCloneBind linux_env (start_world [''UNSET'', ''/data:remote:mybucket'']))
       = start_world [''UNSET'', ''/data:remote:mybucket'']"
proof -
  have g: "GOOS linux_env = ''linux''" by (simp add: linux_env_def)
  have h: "rclone.Binds (RCloneConfig (start_world [''UNSET'', ''/data:remote:mybucket''])) =
     ''UNSET'' # [''/data:remote:mybucket'']"
    by (simp add: start_world_def)
  have o: "OS (start_world [''UNSET'', ''/data:remote:mybucket'']) = OsFs"
    and c: "rclone_ConfigPath (start_world [''UNSET'', ''/data:remote:mybucket'']) = None"
    by (simp_all add: start_world_def)
  from sentinel_skips_bind_step [OF h, of linux_env] g h o c show ?thesis by simp
qed

text \<open>
  Claim C9.  On Linux \<^verbatim>\<open>initRCloneBind\<close> reads \<^verbatim>\<open>Binds[0]\<close> before anything else.
  With an empty bind list the read is out of range: the step ends in a runtime panic,
  with the state as it was (no warning has been logged).  With any non-empty list the
  step returns normally.
\<close>

theorem empty_bind_list_panics:
  assumes "GOOS e = ''linux''"
  shows "(rclone.Binds (RCloneConfig w) = [] \<longrightarrow>
            initRCloneBind e w = (Panicked IndexOutOfRange, w))
       \<and> (rclone.Binds (RCloneConfig w) \<noteq> [] \<longrightarrow> fst (initRCloneBind e w) = Returned)"
  using assms
  by (auto simp add: initRCloneBind_def Let_def simp del: bind_loop.simps
        split: list.splits prod.splits option.splits)

theorem empty_bind_list_panics_witness:
  "GOOS linux_env = ''linux'' \<and> rclone.Binds (RCloneConfig (start_world [])) = []
   \<and> initRCloneBind linux_env (start_world []) = (Panicked IndexOutOfRange, start_world [])
   \<and> logged (start_world []) = []
   \<and> rclone.Binds (RCloneConfig (start_world [''/data:remote:mybucket''])) \<noteq> []
   \<and> fst (initRCloneBind linux_env (start_world [''/data:remote:mybucket''])) = Returned"
proof -
  have g: "GOOS linux_env = ''linux''" by (simp add: linux_env_def)
  have b: "rclone.Binds (RCloneConfig (start_world [])) = []" by (simp add: start_world_def)
  have l: "logged (start_world []) = []" by (simp add: start_world_def)
  have n: "rclone.Binds (RCloneConfig (start_world [''/data:remote:mybucket''])) \<noteq> []"
    by (simp add: start_world_def)
  from empty_bind_list_panics [OF g, of "start_world []"]
    empty_bind_list_panics [OF g, of "start_world [''/data:remote:mybucket'']"] g b l n
  show ?thesis by simp
qed



text \<open>
  Claim C3.  On Linux, with the remote config file present and a non-empty bind list
  whose entries all contain a colon, the step installs the composite filesystem over
  the table that holds the local filesystem at \<^verbatim>\<open>/\<close> and, for every entry whose local
  part resolves, a remote handle built from the remote part.  For the bind list
  \<^verbatim>\<open>["/data:remote:mybucket"]\<close>, with \<open>t\<close> the absolute form of \<^verbatim>\<open>/data\<close>, the table
  maps \<^verbatim>\<open>/\<close> to the local filesystem and \<open>t\<close> to the remote handle of
  \<^verbatim>\<open>remote:mybucket\<close>, and nothing else; these are two entries when \<open>t\<close> is not the
  root.  An entry is split at its first colon only: the remote target keeps its colons.
\<close>

theorem bind_table_installed:
  assumes "GOOS e = ''linux''"
    and "Exists w (rclone.Config (RCloneConfig w))"
    and "rclone.Binds (RCloneConfig w) \<noteq> []"
    and "\<forall>kv\<in>set (rclone.Binds (RCloneConfig w)). CHR '':'' \<in> set kv"
  shows "fst (initRCloneBind e w) = Returned
       \<and> OS (snd (initRCloneBind e w)) =
           BindPathFs (table_of (filepath_Abs e) (rclone.Binds (RCloneConfig w)) [''/'' \<mapsto> OsFs])
       \<and> (rclone.Binds (RCloneConfig w) = [''/data:remote:mybucket''] \<longrightarrow>
            (\<forall>t. filepath_Abs e ''/data'' = Some t \<longrightarrow>
               OS (snd (initRCloneBind e w)) =
                 BindPathFs [''/'' \<mapsto> OsFs, t \<mapsto> RCloneFs ''remote:mybucket'']
               \<and> dom [''/'' \<mapsto> OsFs, t \<mapsto> RCloneFs ''remote:mybucket''] = {''/'', t}
               \<and> (t \<noteq> ''/'' \<longrightarrow>
                    card (dom [''/'' \<mapsto> OsFs, t \<mapsto> RCloneFs ''remote:mybucket'']) = 2)))
       \<and> (\<forall>l r. CHR '':'' \<notin> set l \<longrightarrow> SplitN (l @ '':'' @ r) '':'' 2 = [l, r])"
proof -
  note fin = initRCloneBind_completes [OF assms]
  have one: "table_of (filepath_Abs e) [''/data:remote:mybucket''] [''/'' \<mapsto> OsFs] =
               [''/'' \<mapsto> OsFs, t \<mapsto> RCloneFs ''remote:mybucket'']"
    if "filepath_Abs e ''/data'' = Some t" for t
    using that by (simp add: table_of_def local_part_def remote_part_def)
  have split: "SplitN (l @ '':'' @ r) '':'' 2 = [l, r]" if "CHR '':'' \<notin> set l" for l r
    using SplitN_first_colon [OF that] by simp
  show ?thesis using fin(1,2) one split by auto
qed

theorem bind_table_installed_witness:
  "GOOS linux_env = ''linux''
   \<and> Exists (start_world [''/data:remote:mybucket''])
        (rclone.Config (RCloneConfig (start_world [''/data:remote:mybucket''])))
   \<and> rclone.Binds (RCloneConfig (start_world [''/data:remote:mybucket''])) = [''/data:remote:mybucket'']
   \<and> filepath_Abs linux_env ''/data'' = Some ''/data''
   \<and> fst (initRCloneBind linux_env (start_world [''/data:remote:mybucket''])) = Returned
   \<and> OS (snd (initRCloneBind linux_env (start_world [''/data:remote:mybucket'']))) =
        BindPathFs [''/'' \<mapsto> OsFs, ''/data'' \<mapsto> RCloneFs ''remote:mybucket'']
   \<and> card (dom [''/'' \<mapsto> OsFs, ''/data'' \<mapsto> RCloneFs ''remote:mybucket'']) = 2
   \<and> CHR '':'' \<notin> set ''/data''
   \<and> SplitN (''/data'' @ '':'' @ ''remote:mybucket'') '':'' 2 = [''/data'', ''remote:mybucket'']"
proof -
  let ?w = "start_world [''/data:remote:mybucket'']"
  have g: "GOOS linux_env = ''linux''" by (simp add: linux_env_def)
  have b: "rclone.Binds (RCloneConfig ?w) = [''/data:remote:mybucket'']"
    by (simp add: start_world_def)
  have c: "rclone.Config (RCloneConfig ?w) = ''/etc/rclone.conf''" by (simp add: start_world_def)
  have x: "Exists ?w (rclone.Config (RCloneConfig ?w))"
    unfolding c by (simp add: Exists_def start_world_def)
  have ne: "rclone.Binds (RCloneConfig ?w) \<noteq> []" unfolding b by simp
  have al: "\<forall>kv\<in>set (rclone.Binds (RCloneConfig ?w)). CHR '':'' \<in> set kv" unfolding b by simp
  have a: "filepath_Abs linux_env ''/data'' = Some ''/data''" by (simp add: linux_env_def)
  have d: "''/data'' \<noteq> ''/''" by simp
  have nc: "CHR '':'' \<notin> set ''/data''" by simp
  note t = bind_table_installed [OF g x ne al]
  have r: "fst (initRCloneBind linux_env ?w) = Returned" using t by (rule conjunct1)
  note one = t [THEN conjunct2, THEN conjunct2, THEN conjunct1, rule_format, OF b a]
  have o: "OS (snd (initRCloneBind linux_env ?w)) =
             BindPathFs [''/'' \<mapsto> OsFs, ''/data'' \<mapsto> RCloneFs ''remote:mybucket'']"
    using one by (rule conjunct1)
  have k: "card (dom [''/'' \<mapsto> OsFs, ''/data'' \<mapsto> RCloneFs ''remote:mybucket'']) = 2"
    using one [THEN conjunct2, THEN conjunct2] d by (rule mp)
  note sp = t [THEN conjunct2, THEN conjunct2, THEN conjunct2, rule_format, OF nc,
               of "''remote:mybucket''"]
  show ?thesis
    apply (intro conjI)
    apply (rule g)
    apply (rule x)
    apply (rule b)
    apply (rule a)
    apply (rule r)
    apply (rule o)
    apply (rule k)
    apply (rule nc)
    apply (rule sp)
    done
qed

text \<open>
  Claim C5.  An entry \<open>l:r\<close> whose local part \<open>l\<close> does not resolve to an absolute
  path is warned about and skipped, and only that entry: among well-formed entries the
  loop goes on, the table that is installed is the one the other entries give, and
  the log holds the calls for the entries before it, then the announcement of the
  entry and the warning about \<open>l\<close>, then the calls for the entries after it.
\<close>

theorem unresolvable_entry_is_skipped:
  assumes "GOOS e = ''linux''"
    and "Exists w (rclone.Config (RCloneConfig w))"
    and "rclone.Binds (RCloneConfig w) = pre @ (l @ '':'' @ r) # post"
    and "CHR '':'' \<notin> set l"
    and "filepath_Abs e l = None"
    and "\<forall>kv\<in>set (pre @ post). CHR '':'' \<in> set kv"
  shows "fst (initRCloneBind e w) = Returned
       \<and> OS (snd (initRCloneBind e w)) =
           BindPathFs (table_of (filepath_Abs e) (pre @ post) [''/'' \<mapsto> OsFs])
       \<and> logged (snd (initRCloneBind e w)) =
           logged w @ bind_log (filepath_Abs e) pre
             @ [(SevInfo, Binding r l), (SevWarning, AbsPathError l)]
             @ bind_log (filepath_Abs e) post"
proof -
  let ?kv = "l @ CHR '':'' # r"
  have parts: "local_part ?kv = l" "remote_part ?kv = r"
    using parts_of_entry [OF assms(4), of r] by simp_all
  have ne: "rclone.Binds (RCloneConfig w) \<noteq> []" unfolding assms(3) by simp
  have al: "\<forall>kv\<in>set (rclone.Binds (RCloneConfig w)). CHR '':'' \<in> set kv"
    unfolding assms(3) using assms(6) by auto
  note fin = initRCloneBind_completes [OF assms(1,2) ne al]
  have skip: "table_of (filepath_Abs e) (pre @ ?kv # post) [''/'' \<mapsto> OsFs] =
              table_of (filepath_Abs e) (pre @ post) [''/'' \<mapsto> OsFs]"
    by (rule table_of_skip) (simp add: parts assms(5))
  have lg: "bind_log (filepath_Abs e) (pre @ ?kv # post) =
            bind_log (filepath_Abs e) pre @ [(SevInfo, Binding r l), (SevWarning, AbsPathError l)]
              @ bind_log (filepath_Abs e) post"
    using parts assms(5) by (simp add: bind_log_def)
  show ?thesis using fin skip lg unfolding assms(3) by simp
qed

theorem unresolvable_entry_is_skipped_witness:
  "GOOS linux_env = ''linux''
   \<and> rclone.Binds (RCloneConfig (start_world [''/a:r1:x'', ''data:remote:mybucket'', ''/b:r2'']))
       = [''/a:r1:x''] @ (''data'' @ '':'' @ ''remote:mybucket'') # [''/b:r2'']
   \<and> CHR '':'' \<notin> set ''data''
   \<and> filepath_Abs linux_env ''data'' = None
   \<and> fst (initRCloneBind linux_env (start_world [''/a:r1:x'', ''data:remote:mybucket'', ''/b:r2''])) = Returned
   \<and> OS (snd (initRCloneBind linux_env (start_world [''/a:r1:x'', ''data:remote:mybucket'', ''/b:r2''])))
       = BindPathFs [''/'' \<mapsto> OsFs, ''/a'' \<mapsto> RCloneFs ''r1:x'', ''/b'' \<mapsto> RCloneFs ''r2'']
   \<and> logged (snd (initRCloneBind linux_env (start_world [''/a:r1:x'', ''data:remote:mybucket'', ''/b:r2''])))
       = [(SevInfo, Binding ''r1:x'' ''/a''),
          (SevInfo, Binding ''remote:mybucket'' ''data''), (SevWarning, AbsPathError ''data''),
          (SevInfo, Binding ''r2'' ''/b'')]"
proof -
  let ?w = "start_world [''/a:r1:x'', ''data:remote:mybucket'', ''/b:r2'']"
  have g: "GOOS linux_env = ''linux''" by (simp add: linux_env_def)
  have b: "rclone.Binds (RCloneConfig ?w) =
             [''/a:r1:x''] @ (''data'' @ '':'' @ ''remote:mybucket'') # [''/b:r2'']"
    by (simp add: start_world_def)
  have c: "rclone.Config (RCloneConfig ?w) = ''/etc/rclone.conf''" by (simp add: start_world_def)
  have x: "Exists ?w (rclone.Config (RCloneConfig ?w))"
    unfolding c by (simp add: Exists_def start_world_def)
  have n: "CHR '':'' \<notin> set ''data''" by simp
  have a: "filepath_Abs linux_env ''data'' = None" by (simp add: linux_env_def)
  have al: "\<forall>kv\<in>set ([''/a:r1:x''] @ [''/b:r2'']). CHR '':'' \<in> set kv" by simp
  have l0: "logged ?w = []" by (simp add: start_world_def)
  have t: "table_of (filepath_Abs linux_env) ([''/a:r1:x''] @ [''/b:r2'']) [''/'' \<mapsto> OsFs] =
             [''/'' \<mapsto> OsFs, ''/a'' \<mapsto> RCloneFs ''r1:x'', ''/b'' \<mapsto> RCloneFs ''r2'']"
    by (simp add: table_of_def local_part_def remote_part_def linux_env_def)
  have l1: "bind_log (filepath_Abs linux_env) [''/a:r1:x''] = [(SevInfo, Binding ''r1:x'' ''/a'')]"
    by (simp add: bind_log_def local_part_def remote_part_def linux_env_def)
  have l2: "bind_log (filepath_Abs linux_env) [''/b:r2''] = [(SevInfo, Binding ''r2'' ''/b'')]"
    by (simp add: bind_log_def local_part_def remote_part_def linux_env_def)
  from unresolvable_entry_is_skipped [OF g x b n a al] g b n a
  show ?thesis unfolding t l0 l1 l2 by simp
qed

text \<open>
  Claim C2, as amended.  For every bind list with an entry that has no colon, the step
  returns without installing a bind table: the process-wide filesystem is what it
  was.  A warning is the last call to the logger, except on Linux with the sentinel
  \<^verbatim>\<open>UNSET\<close> as first entry, where the step changes nothing and logs nothing.  When
  the loop is reached (Linux, no sentinel, remote config file present) that warning
  names the first entry without a colon.
\<close>

theorem malformed_entry_installs_nothing:
  assumes "\<exists>kv\<in>set (rclone.Binds (RCloneConfig w)). CHR '':'' \<notin> set kv"
  shows "fst (initRCloneBind e w) = Returned
       \<and> OS (snd (initRCloneBind e w)) = OS w
       \<and> (GOOS e = ''linux'' \<and> hd (rclone.Binds (RCloneConfig w)) = ''UNSET'' \<longrightarrow>
            snd (initRCloneBind e w) = w)
       \<and> (\<not> (GOOS e = ''linux'' \<and> hd (rclone.Binds (RCloneConfig w)) = ''UNSET'') \<longrightarrow>
            length (logged w) < length (logged (snd (initRCloneBind e w)))
            \<and> fst (last (logged (snd (initRCloneBind e w)))) = SevWarning)
       \<and> (GOOS e = ''linux'' \<and> hd (rclone.Binds (RCloneConfig w)) \<noteq> ''UNSET''
            \<and> Exists w (rclone.Config (RCloneConfig w)) \<longrightarrow>
            last (logged (snd (initRCloneBind e w))) =
              (SevWarning, BadBindFormat
                 (hd (filter (\<lambda>kv. CHR '':'' \<notin> set kv) (rclone.Binds (RCloneConfig w))))))"
proof -
  from assms obtain first others where b: "rclone.Binds (RCloneConfig w) = first # others"
    by (cases "rclone.Binds (RCloneConfig w)") auto
  show ?thesis
  proof (cases "GOOS e = ''linux'' \<and> first \<noteq> ''UNSET'' \<and> Exists w (rclone.Config (RCloneConfig w))")
    case False
    then show ?thesis using b by (auto simp add: initRCloneBind_def simp del: bind_loop.simps)
  next
    case True
    let ?w1 = "w\<lparr>rclone_ConfigPath := Some (rclone.Config (RCloneConfig w))\<rparr>"
    let ?r = "bind_loop e (first # others) [''/'' \<mapsto> OsFs] ?w1"
    have run: "initRCloneBind e w =
        (case ?r of (None, w2) \<Rightarrow> (Returned, w2)
         | (Some bindPoints, w2) \<Rightarrow> (Returned, w2\<lparr>OS := BindPathFs bindPoints\<rparr>))"
      using True b by (intro initRCloneBind_run) simp_all
    have bad: "\<exists>kv\<in>set (first # others). CHR '':'' \<notin> set kv" using assms b by simp
    have u: "untouched ?w1 (snd ?r)" by (rule bind_loop_untouched)
    from bind_loop_aborts [OF bad, of e "[''/'' \<mapsto> OsFs]" ?w1]
    have f: "fst ?r = None"
      and l: "last (logged (snd ?r)) =
                (SevWarning, BadBindFormat (hd (filter (\<lambda>kv. CHR '':'' \<notin> set kv) (first # others))))"
      and g: "length (logged ?w1) < length (logged (snd ?r))"
      by blast+
    have s: "initRCloneBind e w = (Returned, snd ?r)"
      using f unfolding run by (cases ?r) auto
    show ?thesis
      using True u l g unfolding s b untouched_def by simp
  qed
qed

theorem malformed_entry_installs_nothing_witness:
  "CHR '':'' \<notin> set ''bad-entry-no-colon''
   \<and> rclone.Binds (RCloneConfig (start_world [''/data:remote:mybucket'', ''bad-entry-no-colon'']))
       = [''/data:remote:mybucket'', ''bad-entry-no-colon'']
   \<and> fst (initRCloneBind linux_env (start_world [''/data:remote:mybucket'', ''bad-entry-no-colon''])) = Returned
   \<and> OS (snd (initRCloneBind linux_env (start_world [''/data:remote:mybucket'', ''bad-entry-no-colon''])))
       = OsFs
   \<and> last (logged (snd (initRCloneBind linux_env
         (start_world [''/data:remote:mybucket'', ''bad-entry-no-colon'']))))
       = (SevWarning, BadBindFormat ''bad-entry-no-colon'')
   \<and> hd (rclone.Binds (RCloneConfig (start_world [''UNSET'', ''bad-entry-no-colon'']))) = ''UNSET''
   \<and> snd (initRCloneBind linux_env (start_world [''UNSET'', ''bad-entry-no-colon'']))
       = start_world [''UNSET'', ''bad-entry-no-colon'']"
proof -
  let ?w = "start_world [''/data:remote:mybucket'', ''bad-entry-no-colon'']"
  let ?u = "start_world [''UNSET'', ''bad-entry-no-colon'']"
  have bu: "rclone.Binds (RCloneConfig ?u) = [''UNSET'', ''bad-entry-no-colon'']"
    by (simp add: start_world_def)
  have hu: "\<exists>kv\<in>set (rclone.Binds (RCloneConfig ?u)). CHR '':'' \<notin> set kv" unfolding bu by simp
  have g: "GOOS linux_env = ''linux''" by (simp add: linux_env_def)
  have b: "rclone.Binds (RCloneConfig ?w) = [''/data:remote:mybucket'', ''bad-entry-no-colon'']"
    by (simp add: start_world_def)
  have c: "rclone.Config (RCloneConfig ?w) = ''/etc/rclone.conf''" by (simp add: start_world_def)
  have x: "Exists ?w (rclone.Config (RCloneConfig ?w))"
    unfolding c by (simp add: Exists_def start_world_def)
  have o: "OS ?w = OsFs" by (simp add: start_world_def)
  have m: "CHR '':'' \<notin> set ''bad-entry-no-colon''" by simp
  have h: "\<exists>kv\<in>set (rclone.Binds (RCloneConfig ?w)). CHR '':'' \<notin> set kv" unfolding b by simp
  from malformed_entry_installs_nothing [OF h, of linux_env]
    malformed_entry_installs_nothing [OF hu, of linux_env] g b bu x o m
  show ?thesis by simp
qed

text \<open>
  The claim C2 as stated fails for the bind list \<^verbatim>\<open>["UNSET"]\<close>: its only entry has no
  colon, and the step returns without any call to the logger.
\<close>

theorem sentinel_list_logs_no_warning:
  "CHR '':'' \<notin> set ''UNSET''
   \<and> rclone.Binds (RCloneConfig (start_world [''UNSET''])) = [''UNSET'']
   \<and> initRCloneBind linux_env (start_world [''UNSET'']) = (Returned, start_world [''UNSET''])
   \<and> logged (start_world [''UNSET'']) = []"
  by (simp add: initRCloneBind_def linux_env_def start_world_def)

section \<open>The configuration file\<close>

text \<open>
  Claim C6.  When the path is not empty and something exists at it, \<^verbatim>\<open>Init\<close> leaves
  every file as it was, whatever its outcome: no default content is written.  It draws
  nothing from the random source, so no secret is generated.  Running \<^verbatim>\<open>Init\<close> again
  on the resulting state leaves the files unchanged as well.
\<close>

theorem existing_file_left_unchanged:
  assumes "path \<noteq> []" and "Exists w path"
  shows "files (snd (Init e path w)) = files w
       \<and> rand_used (snd (Init e path w)) = rand_used w
       \<and> files (snd (Init e path (snd (Init e path w)))) = files w"
proof -
  have one: "same_disk v (snd (Init e path v))" if "Exists v path" for v
    using Init_rest_disk [of v e path] Init_create_existing [OF assms(1) that, of e]
    by (simp add: Init_split)
  have d: "same_disk w (snd (Init e path w))" using assms(2) by (rule one)
  then have "Exists (snd (Init e path w)) path"
    using assms(2) by (simp add: Exists_def same_disk_def)
  then have "same_disk (snd (Init e path w)) (snd (Init e path (snd (Init e path w))))"
    by (rule one)
  with d show ?thesis by (simp add: same_disk_def)
qed

theorem existing_file_left_unchanged_witness:
  "''/etc/cloudreve/conf.ini'' \<noteq> []
   \<and> Exists (start_world [''UNSET'']) ''/etc/cloudreve/conf.ini''
   \<and> files (snd (Init linux_env ''/etc/cloudreve/conf.ini'' (start_world [''UNSET''])))
        ''/etc/cloudreve/conf.ini'' = Some (File ''[System]'')
   \<and> rand_used (snd (Init linux_env ''/etc/cloudreve/conf.ini'' (start_world [''UNSET'']))) = 0"
proof -
  have p: "''/etc/cloudreve/conf.ini'' \<noteq> []" by simp
  have x: "Exists (start_world [''UNSET'']) ''/etc/cloudreve/conf.ini''"
    by (simp add: Exists_def start_world_def)
  have f: "files (start_world [''UNSET'']) ''/etc/cloudreve/conf.ini'' = Some (File ''[System]'')"
    by (simp add: start_world_def)
  have r: "rand_used (start_world [''UNSET'']) = 0" by (simp add: start_world_def)
  from existing_file_left_unchanged [OF p x, of linux_env] x f r show ?thesis by simp
qed

text \<open>
  Claim C8, as amended.  \<^verbatim>\<open>Init\<close> closes the handle of the configuration file on
  every exit path but one: when the outcome is not the panic of a failed write, the
  handles open after \<^verbatim>\<open>Init\<close> are those open before it.  When writing the default
  content fails, \<^verbatim>\<open>Init\<close> panics at line 126 and the handle on the path stays open:
  line 129 is not reached.
\<close>

theorem handle_closed_unless_write_fails:
  "(fst (Init e path w) = Panicked (Fatal (CannotWrite err)) \<longrightarrow>
      open_files (snd (Init e path w)) = path # open_files w)
   \<and> ((\<forall>err. fst (Init e path w) \<noteq> Panicked (Fatal (CannotWrite err))) \<longrightarrow>
      open_files (snd (Init e path w)) = open_files w)"
proof -
  obtain out w1 where c: "Init_create e path w = (out, w1)" by (cases "Init_create e path w")
  show ?thesis
  proof (cases out)
    case (Panicked p)
    with c have "Init e path w = Init_create e path w" by (simp add: Init_split)
    then show ?thesis using Init_create_handles [of e path w err] by simp
  next
    case Returned
    with c have i: "Init e path w = Init_rest e path w1" by (simp add: Init_split)
    have "open_files w1 = open_files w"
      using Init_create_handles [of e path w err] c Returned by simp
    moreover have "open_files (snd (Init_rest e path w1)) = open_files w1"
      using Init_rest_disk [of w1 e path] by (simp add: same_disk_def)
    ultimately show ?thesis using Init_rest_outcome [of e path w1] by (simp add: i)
  qed
qed

theorem handle_closed_unless_write_fails_witness:
  "fst (Init linux_env ''/srv/cloudreve/conf.ini'' (start_world [''UNSET'']))
     \<noteq> Panicked (Fatal (CannotWrite ''no space left on device''))
   \<and> open_files (snd (Init linux_env ''/srv/cloudreve/conf.ini'' (start_world [''UNSET'']))) = []
   \<and> fst (Init full_disk_env ''/srv/cloudreve/conf.ini'' (start_world [''UNSET'']))
     = Panicked (Fatal (CannotWrite ''no space left on device''))
   \<and> open_files (snd (Init full_disk_env ''/srv/cloudreve/conf.ini'' (start_world [''UNSET''])))
     = ''/srv/cloudreve/conf.ini'' # []"
proof -
  let ?p = "''/srv/cloudreve/conf.ini''"
  let ?w = "start_world [''UNSET'']"
  have ne: "?p \<noteq> []" by simp
  have a: "\<not> Exists ?w ?p" by (simp add: Exists_def start_world_def)
  have m: "mkdir_error full_disk_env (filepath_Dir ?p) = None"
    by (simp add: full_disk_env_def linux_env_def)
  have c: "create_error full_disk_env ?p = None" by (simp add: full_disk_env_def linux_env_def)
  have wr: "write_error full_disk_env ?p = Some (''no space left on device'', 0)"
    by (simp add: full_disk_env_def)
  have f: "fst (Init full_disk_env ?p ?w) = Panicked (Fatal (CannotWrite ''no space left on device''))"
    using ne a m c wr by (rule Init_write_fails)
  have w: "write_error linux_env ''/srv/cloudreve/conf.ini'' = None" by (simp add: linux_env_def)
  have o: "open_files (start_world [''UNSET'']) = []" by (simp add: start_world_def)
  have n: "\<forall>err. fst (Init linux_env ''/srv/cloudreve/conf.ini'' (start_world [''UNSET'']))
             \<noteq> Panicked (Fatal (CannotWrite err))"
    using Init_write_succeeds [OF w] by blast
  from handle_closed_unless_write_fails
         [of linux_env "''/srv/cloudreve/conf.ini''" "start_world [''UNSET'']" "''no space left on device''"]
       handle_closed_unless_write_fails
         [of full_disk_env "''/srv/cloudreve/conf.ini''" "start_world [''UNSET'']" "''no space left on device''"]
       n o f
  show ?thesis by simp
qed

text \<open>
  The claim C8 as stated fails on a full disk: the file is created, the write fails,
  \<^verbatim>\<open>Init\<close> panics, and the handle that was opened is still open.
\<close>

theorem write_failure_leaves_handle_open:
  "fst (Init full_disk_env ''/srv/cloudreve/conf.ini'' (start_world [''UNSET'']))
     = Panicked (Fatal (CannotWrite ''no space left on device''))
   \<and> open_files (start_world [''UNSET'']) = []
   \<and> open_files (snd (Init full_disk_env ''/srv/cloudreve/conf.ini'' (start_world [''UNSET''])))
     = [''/srv/cloudreve/conf.ini'']"
proof -
  let ?p = "''/srv/cloudreve/conf.ini''"
  let ?w = "start_world [''UNSET'']"
  have ne: "?p \<noteq> []" by simp
  have a: "\<not> Exists ?w ?p" by (simp add: Exists_def start_world_def)
  have m: "mkdir_error full_disk_env (filepath_Dir ?p) = None"
    by (simp add: full_disk_env_def linux_env_def)
  have c: "create_error full_disk_env ?p = None" by (simp add: full_disk_env_def linux_env_def)
  have wr: "write_error full_disk_env ?p = Some (''no space left on device'', 0)"
    by (simp add: full_disk_env_def)
  have o: "open_files ?w = []" by (simp add: start_world_def)
  have f: "fst (Init full_disk_env ?p ?w) = Panicked (Fatal (CannotWrite ''no space left on device''))"
    using ne a m c wr by (rule Init_write_fails)
  have "open_files (snd (Init full_disk_env ?p ?w)) = ?p # open_files ?w"
  proof -
    obtain out w1 where ic: "Init_create full_disk_env ?p ?w = (out, w1)"
      by (cases "Init_create full_disk_env ?p ?w")
    have nr: "out \<noteq> Returned"
      using f Init_rest_outcome [of full_disk_env ?p w1 "''no space left on device''"] ic
      by (auto simp add: Init_split)
    then have "Init full_disk_env ?p ?w = Init_create full_disk_env ?p ?w"
      using ic by (cases out) (simp_all add: Init_split)
    with f Init_create_handles [of full_disk_env ?p ?w "''no space left on device''"]
    show ?thesis by simp
  qed
  with f o show ?thesis by simp
qed

text \<open>
  Claim C7, as amended.  When the path is not empty and nothing exists at it, and
  creating the file (with its directory, if that is missing) and writing to it
  succeed, then after \<^verbatim>\<open>Init\<close>, whatever happens later in it, the file at the path
  holds the default template with \<^verbatim>\<open>{SessionSecret}\<close> and \<^verbatim>\<open>{HashIDSalt}\<close> replaced by
  two strings of exactly 64 characters of the alphabet, the first made of the next 64
  draws of the random source and the second of the 64 draws after those.  The
  directory of the file exists, and so does every directory above it when it had to
  be created.  When the path is empty, \<^verbatim>\<open>Init\<close> enters the same block, but no file
  can be created under the empty name: \<^verbatim>\<open>Init\<close> ends in the panic of line 120, there
  is still no file at the empty path, and no handle has been opened.
\<close>

theorem absent_file_gets_default_content:
  "(path \<noteq> [] \<and> \<not> Exists w path
      \<and> (Exists w (filepath_Dir path) \<or> mkdir_error e (filepath_Dir path) = None)
      \<and> create_error e path = None \<and> write_error e path = None \<longrightarrow>
      files (snd (Init e path w)) path =
           Some (File (''[System]\<newline>Mode = master\<newline>Listen = :5212\<newline>SessionSecret = ''
                        @ session_secret e w @ ''\<newline>HashIDSalt = '' @ hashid_salt e w
                        @ ''\<newline>''))
       \<and> length (session_secret e w) = 64 \<and> length (hashid_salt e w) = 64
       \<and> set (session_secret e w) \<subseteq> set letterRunes
       \<and> set (hashid_salt e w) \<subseteq> set letterRunes
       \<and> session_secret e w =
           map (\<lambda>i. letterRunes ! (rand_Intn e (rand_used w + i) mod length letterRunes)) [0..<64]
       \<and> hashid_salt e w =
           map (\<lambda>i. letterRunes ! (rand_Intn e (rand_used w + 64 + i) mod length letterRunes)) [0..<64]
       \<and> rand_used (snd (Init e path w)) = rand_used w + 128
       \<and> Exists (snd (Init e path w)) (filepath_Dir path)
       \<and> (\<not> Exists w (filepath_Dir path) \<longrightarrow>
            (\<forall>d\<in>set (dir_chain (filepath_Dir path)). Exists (snd (Init e path w)) d)))
   \<and> (\<exists>err. fst (Init e [] w) = Panicked (Fatal (CannotCreate err)))
   \<and> files (snd (Init e [] w)) [] = files w []
   \<and> open_files (snd (Init e [] w)) = open_files w"
proof -
  have first: "path \<noteq> [] \<and> \<not> Exists w path
      \<and> (Exists w (filepath_Dir path) \<or> mkdir_error e (filepath_Dir path) = None)
      \<and> create_error e path = None \<and> write_error e path = None \<longrightarrow>
      files (snd (Init e path w)) path =
           Some (File (''[System]\<newline>Mode = master\<newline>Listen = :5212\<newline>SessionSecret = ''
                        @ session_secret e w @ ''\<newline>HashIDSalt = '' @ hashid_salt e w
                        @ ''\<newline>''))
       \<and> length (session_secret e w) = 64 \<and> length (hashid_salt e w) = 64
       \<and> set (session_secret e w) \<subseteq> set letterRunes
       \<and> set (hashid_salt e w) \<subseteq> set letterRunes
       \<and> session_secret e w =
           map (\<lambda>i. letterRunes ! (rand_Intn e (rand_used w + i) mod length letterRunes)) [0..<64]
       \<and> hashid_salt e w =
           map (\<lambda>i. letterRunes ! (rand_Intn e (rand_used w + 64 + i) mod length letterRunes)) [0..<64]
       \<and> rand_used (snd (Init e path w)) = rand_used w + 128
       \<and> Exists (snd (Init e path w)) (filepath_Dir path)
       \<and> (\<not> Exists w (filepath_Dir path) \<longrightarrow>
            (\<forall>d\<in>set (dir_chain (filepath_Dir path)). Exists (snd (Init e path w)) d))"
  proof
    assume h: "path \<noteq> [] \<and> \<not> Exists w path
      \<and> (Exists w (filepath_Dir path) \<or> mkdir_error e (filepath_Dir path) = None)
      \<and> create_error e path = None \<and> write_error e path = None"
    then have h1: "path \<noteq> [] \<and> \<not> Exists w path"
      and h2: "Exists w (filepath_Dir path) \<or> mkdir_error e (filepath_Dir path) = None"
      and h3: "create_error e path = None" and h4: "write_error e path = None"
      by simp_all
    show "files (snd (Init e path w)) path =
           Some (File (''[System]\<newline>Mode = master\<newline>Listen = :5212\<newline>SessionSecret = ''
                        @ session_secret e w @ ''\<newline>HashIDSalt = '' @ hashid_salt e w
                        @ ''\<newline>''))
       \<and> length (session_secret e w) = 64 \<and> length (hashid_salt e w) = 64
       \<and> set (session_secret e w) \<subseteq> set letterRunes
       \<and> set (hashid_salt e w) \<subseteq> set letterRunes
       \<and> session_secret e w =
           map (\<lambda>i. letterRunes ! (rand_Intn e (rand_used w + i) mod length letterRunes)) [0..<64]
       \<and> hashid_salt e w =
           map (\<lambda>i. letterRunes ! (rand_Intn e (rand_used w + 64 + i) mod length letterRunes)) [0..<64]
       \<and> rand_used (snd (Init e path w)) = rand_used w + 128
       \<and> Exists (snd (Init e path w)) (filepath_Dir path)
       \<and> (\<not> Exists w (filepath_Dir path) \<longrightarrow>
            (\<forall>d\<in>set (dir_chain (filepath_Dir path)). Exists (snd (Init e path w)) d))"
      using h1 h2 h3 h4 by (rule Init_writes_default)
  qed
  from Init_empty_path(1) [of e w]
  have second: "\<exists>err. fst (Init e [] w) = Panicked (Fatal (CannotCreate err))"
    by (elim exE conjE) (rule exI)
  have third: "files (snd (Init e [] w)) [] = files w []" by (rule Init_empty_path(2))
  have fourth: "open_files (snd (Init e [] w)) = open_files w" by (rule Init_empty_path(3))
  show ?thesis by (rule conjI [OF first conjI [OF second conjI [OF third fourth]]])
qed

theorem absent_file_gets_default_content_witness:
  "''/srv/cloudreve/conf.ini'' \<noteq> []
   \<and> \<not> Exists (start_world [''UNSET'']) ''/srv/cloudreve/conf.ini''
   \<and> \<not> Exists (start_world [''UNSET'']) (filepath_Dir ''/srv/cloudreve/conf.ini'')
   \<and> files (snd (Init linux_env ''/srv/cloudreve/conf.ini'' (start_world [''UNSET'']))) ''/srv/cloudreve/conf.ini'' =
           Some (File (''[System]\<newline>Mode = master\<newline>Listen = :5212\<newline>SessionSecret = ''
                        @ session_secret linux_env (start_world [''UNSET''])
                        @ ''\<newline>HashIDSalt = '' @ hashid_salt linux_env (start_world [''UNSET''])
                        @ ''\<newline>''))
   \<and> length (session_secret linux_env (start_world [''UNSET''])) = 64
   \<and> length (hashid_salt linux_env (start_world [''UNSET''])) = 64
   \<and> Exists (snd (Init linux_env ''/srv/cloudreve/conf.ini'' (start_world [''UNSET'']))) ''/srv''
   \<and> Exists (snd (Init linux_env ''/srv/cloudreve/conf.ini'' (start_world [''UNSET'']))) ''/srv/cloudreve''
   \<and> files (snd (Init linux_env [] (start_world [''UNSET'']))) [] = None
   \<and> open_files (snd (Init linux_env [] (start_world [''UNSET'']))) = []"
proof -
  let ?p = "''/srv/cloudreve/conf.ini''"
  let ?w = "start_world [''UNSET'']"
  have dir: "filepath_Dir ?p = ''/srv/cloudreve''" by (simp add: filepath_Dir_def)
  have chain: "dir_chain ''/srv/cloudreve'' = [''/srv'', ''/srv/cloudreve'']"
    by (simp add: dir_chain_def upt_rec_numeral)
  have ne: "?p \<noteq> []" by simp
  have a: "\<not> Exists ?w ?p" by (simp add: Exists_def start_world_def)
  have nd: "\<not> Exists ?w (filepath_Dir ?p)" unfolding dir by (simp add: Exists_def start_world_def)
  have h: "?p \<noteq> [] \<and> \<not> Exists ?w ?p
      \<and> (Exists ?w (filepath_Dir ?p) \<or> mkdir_error linux_env (filepath_Dir ?p) = None)
      \<and> create_error linux_env ?p = None \<and> write_error linux_env ?p = None"
    using a by (simp add: linux_env_def)
  have f0: "files ?w [] = None" by (simp add: start_world_def)
  have o0: "open_files ?w = []" by (simp add: start_world_def)
  note t = absent_file_gets_default_content [of ?p ?w linux_env]
  note first = t [THEN conjunct1, rule_format, OF h]
  have e1: "files (snd (Init linux_env [] ?w)) [] = None"
    using t [THEN conjunct2, THEN conjunct2, THEN conjunct1] f0 by simp
  have e2: "open_files (snd (Init linux_env [] ?w)) = []"
    using t [THEN conjunct2, THEN conjunct2, THEN conjunct2] o0 by simp
  from first a nd ne e1 e2 show ?thesis unfolding dir chain by simp
qed

text \<open>
  The claim C7 as stated fails for the empty path, also on a host where no system
  call fails otherwise: \<^verbatim>\<open>Init\<close> panics at line 120 and there is no file at the empty
  path afterwards.
\<close>

theorem empty_path_creates_no_file:
  "fst (Init linux_env [] (start_world [''UNSET'']))
     = Panicked (Fatal (CannotCreate ''no such file or directory''))
   \<and> files (snd (Init linux_env [] (start_world [''UNSET'']))) [] = None"
proof -
  let ?w = "start_world [''UNSET'']"
  have m: "Exists ?w ''.'' \<or> mkdir_error linux_env ''.'' = None" by (simp add: linux_env_def)
  have f0: "files ?w [] = None" by (simp add: start_world_def)
  from Init_empty_path(1) [of linux_env ?w]
  obtain err where r: "fst (Init linux_env [] ?w) = Panicked (Fatal (CannotCreate err))
         \<and> (Exists ?w ''.'' \<or> mkdir_error linux_env ''.'' = None \<longrightarrow>
              err = ''no such file or directory'')" ..
  from r [THEN conjunct2] m have "err = ''no such file or directory''" by (rule mp)
  with r [THEN conjunct1]
  have "fst (Init linux_env [] ?w) = Panicked (Fatal (CannotCreate ''no such file or directory''))"
    by simp
  moreover have "files (snd (Init linux_env [] ?w)) [] = None"
    using Init_empty_path(2) [of linux_env ?w] f0 by simp
  ultimately show ?thesis by simp
qed

section \<open>Validation of the mapped records\<close>

text \<open>
  Claim C1.  When \<^verbatim>\<open>Init\<close> returns, each of the ten package-level structs passes the
  validation of its tags: the verdict of the validator on it is "no error".  Read
  field by field, the system mode is \<^verbatim>\<open>master\<close> or \<^verbatim>\<open>slave\<close>, the listen addresses
  and the thumbnail suffix are not empty, the fields of the slave record are empty or
  at least their minimum, and the numeric fields of the captcha record lie within
  their bounds, its \<^verbatim>\<open>Mode\<close> in \<open>[0, 3]\<close>.  A tag \<^verbatim>\<open>gte=lo,lte=hi\<close>
  accepts an integer \<open>v\<close> exactly when \<open>lo \<le> v \<le> hi\<close>; a captcha record that is
  otherwise valid stays valid under a new \<^verbatim>\<open>Mode\<close> exactly when that is in \<open>[0, 3]\<close>.
\<close>

theorem records_valid_after_Init:
  assumes "Init e path w = (Returned, w')"
  shows "(\<forall>p. validate_at p w' = None)
       \<and> (system.Mode (SystemConfig w') = ''master'' \<or> system.Mode (SystemConfig w') = ''slave'')
       \<and> system.Listen (SystemConfig w') \<noteq> []
       \<and> ssl.Listen (SSLConfig w') \<noteq> []
       \<and> thumb.FileSuffix (ThumbConfig w') \<noteq> []
       \<and> (slave.Secret (SlaveConfig w') = [] \<or> 64 \<le> length (slave.Secret (SlaveConfig w')))
       \<and> (slave.CallbackTimeout (SlaveConfig w') = 0 \<or> 1 \<le> slave.CallbackTimeout (SlaveConfig w'))
       \<and> (slave.SignatureTTL (SlaveConfig w') = 0 \<or> 1 \<le> slave.SignatureTTL (SlaveConfig w'))
       \<and> 0 \<le> captcha.Height (CaptchaConfig w') \<and> 0 \<le> captcha.Width (CaptchaConfig w')
       \<and> 0 \<le> captcha.Mode (CaptchaConfig w') \<and> captcha.Mode (CaptchaConfig w') \<le> 3
       \<and> 0 \<le> captcha.ComplexOfNoiseText (CaptchaConfig w')
       \<and> captcha.ComplexOfNoiseText (CaptchaConfig w') \<le> 2
       \<and> 0 \<le> captcha.ComplexOfNoiseDot (CaptchaConfig w')
       \<and> captcha.ComplexOfNoiseDot (CaptchaConfig w') \<le> 2
       \<and> 0 < captcha.CaptchaLen (CaptchaConfig w')
       \<and> (\<forall>lo hi v. validate_field [[Gte lo], [Lte hi]] (VInt v) \<longleftrightarrow> lo \<le> v \<and> v \<le> hi)
       \<and> (\<forall>c v. validate_Struct (fields_captcha c) = None \<longrightarrow>
             (validate_Struct (fields_captcha (c\<lparr>captcha.Mode := v\<rparr>)) = None
                \<longleftrightarrow> 0 \<le> v \<and> v \<le> 3))"
proof -
  have all: "validate_at p w' = None" for p using assms by (rule Init_validates)
  have sy: "validate_Struct (fields_system (SystemConfig w')) = None"
    using all [of PSystemConfig] by simp
  have ss: "validate_Struct (fields_ssl (SSLConfig w')) = None"
    using all [of PSSLConfig] by simp
  have th: "validate_Struct (fields_thumb (ThumbConfig w')) = None"
    using all [of PThumbConfig] by simp
  have ca: "validate_Struct (fields_captcha (CaptchaConfig w')) = None"
    using all [of PCaptchaConfig] by simp
  have sl: "validate_Struct (fields_slave (SlaveConfig w')) = None"
    using all [of PSlaveConfig] by simp
  show ?thesis
    using all sy [unfolded system_valid] ss [unfolded ssl_valid] th [unfolded thumb_valid]
      sl [unfolded slave_valid] ca [unfolded captcha_valid] range_accepts captcha_Mode_range
    by blast
qed

theorem records_valid_after_Init_witness:
  "fst (Init linux_env ''/etc/cloudreve/conf.ini'' (start_world [''UNSET''])) = Returned
   \<and> 0 \<le> captcha.Mode (CaptchaConfig (snd (Init linux_env ''/etc/cloudreve/conf.ini'' (start_world [''UNSET'']))))
   \<and> captcha.Mode (CaptchaConfig (snd (Init linux_env ''/etc/cloudreve/conf.ini'' (start_world [''UNSET''])))) \<le> 3
   \<and> validate_field [[Gte 0], [Lte 3]] (VInt 3)
   \<and> \<not> validate_field [[Gte 0], [Lte 3]] (VInt 4)
   \<and> \<not> validate_field [[Gte 0], [Lte 3]] (VInt (- 1))
   \<and> validate_Struct (fields_captcha (CaptchaConfig (start_world []))) = None
   \<and> validate_Struct (fields_captcha ((CaptchaConfig (start_world []))\<lparr>captcha.Mode := 4\<rparr>)) \<noteq> None"
proof -
  have cv: "validate_Struct (fields_captcha (CaptchaConfig (start_world []))) = None"
    using start_world_valid [of PCaptchaConfig "[]"] by simp
  let ?r = "Init linux_env ''/etc/cloudreve/conf.ini'' (start_world [''UNSET''])"
  have h: "?r = (Returned, snd ?r)"
    using start_Init_returns by (simp add: prod_eq_iff)
  from records_valid_after_Init [OF h] start_Init_returns cv show ?thesis by simp
qed

end
